theory Spec2Isabelle
  imports Main "HOL-Library.Sublist" "HOL-Library.AList" "HOL-Library.List_Lexorder"
    "HOL-Library.Char_ord"
begin

section \<open>A model of the local filesystem\<close>

text \<open>
  Paths are lists of components read from the root; the root itself is the empty list.
  The filesystem is an association list from normalised absolute paths to nodes, so that
  directories can be listed. Symbolic links are not modelled. The bytes of a file are
  either plain bytes or the bytes of a gzip-compressed tar archive, which are kept as the
  entries they decode to: the codec is an outside, lossless capability.
\<close>

type_synonym path = "string list"

datatype content = Bytes string | Gztar "(string list \<times> node) list"
  and node = File content | Dir

type_synonym fs = "(path \<times> node) list"

type_synonym archive = "(path \<times> node) list"

datatype error =
    TypeError | FileNotFoundError | FileExistsError | NotADirectoryError
  | IsADirectoryError | OSError | ValueError | ClientError | ReadError | PathDoesNotExist

datatype rpath = Abs path | Rel path

definition node_at :: "fs \<Rightarrow> path \<Rightarrow> node option" where
  "node_at fs p = (if p = [] then Some Dir else map_of fs p)"

definition path_exists :: "fs \<Rightarrow> path \<Rightarrow> bool" where
  "path_exists fs p = (node_at fs p \<noteq> None)"

definition is_dir :: "fs \<Rightarrow> path \<Rightarrow> bool" where
  "is_dir fs p = (node_at fs p = Some Dir)"

definition is_file :: "fs \<Rightarrow> path \<Rightarrow> bool" where
  "is_file fs p = (case node_at fs p of Some (File c) \<Rightarrow> True | _ \<Rightarrow> False)"

text \<open>
  The error of a lookup that finds nothing at \<open>p\<close>: \<open>NotADirectoryError\<close> when the way
  to \<open>p\<close> leads through a regular file, \<open>FileNotFoundError\<close> otherwise.
\<close>

definition missing_error :: "fs \<Rightarrow> path \<Rightarrow> error" where
  "missing_error fs p =
     (if list_ex (is_file fs) (prefixes p) then NotADirectoryError else FileNotFoundError)"

text \<open>\<open>pathlib.Path(...)\<close> drops empty and \<open>.\<close> components, and keeps \<open>..\<close>.\<close>

definition pure_path :: "string list \<Rightarrow> path" where
  "pure_path cs = filter (\<lambda>c. c \<noteq> ''.'' \<and> c \<noteq> []) cs"

text \<open>\<open>a / b\<close> on paths: an absolute right operand replaces the left one.\<close>

fun joinpath :: "path \<Rightarrow> rpath \<Rightarrow> path" where
  "joinpath base (Abs p) = pure_path p"
| "joinpath base (Rel p) = base @ pure_path p"

fun is_absolute :: "rpath \<Rightarrow> bool" where
  "is_absolute (Abs p) = True"
| "is_absolute (Rel p) = False"

text \<open>\<open>Path.resolve()\<close> without symbolic links: \<open>..\<close> is removed lexically.\<close>

fun resolve_from :: "path \<Rightarrow> path \<Rightarrow> path" where
  "resolve_from acc [] = acc"
| "resolve_from acc (c # cs) =
     (if c = ''..'' then resolve_from (butlast acc) cs else resolve_from (acc @ [c]) cs)"

definition resolve :: "path \<Rightarrow> path" where
  "resolve p = resolve_from [] p"

text \<open>
  What the operating system does with a path that may hold \<open>..\<close>: each \<open>..\<close> is looked
  up in the directory reached so far, which has to exist and be a directory.
\<close>

fun walk :: "fs \<Rightarrow> path \<Rightarrow> path \<Rightarrow> error + path" where
  "walk fs acc [] = Inr acc"
| "walk fs acc (c # cs) =
     (if c = ''..'' then
        (case node_at fs acc of
           None \<Rightarrow> Inl (missing_error fs acc)
         | Some (File x) \<Rightarrow> Inl NotADirectoryError
         | Some Dir \<Rightarrow> walk fs (butlast acc) cs)
      else walk fs (acc @ [c]) cs)"

definition os_exists :: "fs \<Rightarrow> path \<Rightarrow> bool" where
  "os_exists fs p = (case walk fs [] p of Inl e \<Rightarrow> False | Inr q \<Rightarrow> path_exists fs q)"

definition os_is_file :: "fs \<Rightarrow> path \<Rightarrow> bool" where
  "os_is_file fs p = (case walk fs [] p of Inl e \<Rightarrow> False | Inr q \<Rightarrow> is_file fs q)"

definition os_is_dir :: "fs \<Rightarrow> path \<Rightarrow> bool" where
  "os_is_dir fs p = (case walk fs [] p of Inl e \<Rightarrow> False | Inr q \<Rightarrow> is_dir fs q)"

text \<open>The entries strictly below a directory, with paths relative to it.\<close>

definition subtree :: "fs \<Rightarrow> path \<Rightarrow> (path \<times> node) list" where
  "subtree fs d = map (\<lambda>(p, n). (drop (length d) p, n)) (filter (\<lambda>(p, n). strict_prefix d p) fs)"

definition iterdir :: "fs \<Rightarrow> path \<Rightarrow> string list" where
  "iterdir fs d = map (\<lambda>(p, n). last p) (filter (\<lambda>(p, n). p \<noteq> [] \<and> butlast p = d) fs)"

text \<open>\<open>Path.mkdir(parents=True, exist_ok=True)\<close>: nothing is created when it fails.\<close>

fun mkdir_parents :: "fs \<Rightarrow> path \<Rightarrow> path \<Rightarrow> error + fs" where
  "mkdir_parents fs acc [] = Inr fs"
| "mkdir_parents fs acc (c # cs) =
     (case node_at fs (acc @ [c]) of
        Some Dir \<Rightarrow> mkdir_parents fs (acc @ [c]) cs
      | Some (File x) \<Rightarrow> Inl (if cs = [] then FileExistsError else NotADirectoryError)
      | None \<Rightarrow> mkdir_parents (fs @ [(acc @ [c], Dir)]) (acc @ [c]) cs)"

text \<open>
  \<open>os.makedirs(p)\<close>, component by component: missing directories are created on the way,
  also those that a later \<open>..\<close> leaves again; an existing target is an error.
\<close>

fun makedirs :: "fs \<Rightarrow> path \<Rightarrow> path \<Rightarrow> error option \<times> fs" where
  "makedirs fs acc [] = (None, fs)"
| "makedirs fs acc (c # cs) =
     (if c = ''..'' then
        (case node_at fs acc of
           None \<Rightarrow> (Some (missing_error fs acc), fs)
         | Some (File x) \<Rightarrow> (Some NotADirectoryError, fs)
         | Some Dir \<Rightarrow> if cs = [] then (Some FileExistsError, fs) else makedirs fs (butlast acc) cs)
      else
        (case node_at fs (acc @ [c]) of
           Some Dir \<Rightarrow> if cs = [] then (Some FileExistsError, fs) else makedirs fs (acc @ [c]) cs
         | Some (File x) \<Rightarrow> (Some (if cs = [] then FileExistsError else NotADirectoryError), fs)
         | None \<Rightarrow> makedirs (fs @ [(acc @ [c], Dir)]) (acc @ [c]) cs))"

text \<open>\<open>os.makedirs(p, exist_ok=True)\<close> on a normalised path.\<close>

definition makedirs_exist_ok :: "fs \<Rightarrow> path \<Rightarrow> error + fs" where
  "makedirs_exist_ok fs p = mkdir_parents fs [] p"

text \<open>Writing a whole file (\<open>open(p, 'wb').write\<close>, \<open>Path.write_text\<close>).\<close>

definition write_file :: "fs \<Rightarrow> path \<Rightarrow> content \<Rightarrow> error + fs" where
  "write_file fs p c =
     (case walk fs [] p of
        Inl e \<Rightarrow> Inl e
      | Inr q \<Rightarrow>
          if q = [] then Inl IsADirectoryError
          else (case node_at fs (butlast q) of
                  None \<Rightarrow> Inl (missing_error fs (butlast q))
                | Some (File x) \<Rightarrow> Inl NotADirectoryError
                | Some Dir \<Rightarrow>
                    (case node_at fs q of
                       Some Dir \<Rightarrow> Inl IsADirectoryError
                     | _ \<Rightarrow> Inr (AList.update q (File c) fs))))"

definition read_file :: "fs \<Rightarrow> path \<Rightarrow> error + content" where
  "read_file fs p =
     (case walk fs [] p of
        Inl e \<Rightarrow> Inl e
      | Inr q \<Rightarrow>
          (case node_at fs q of
             None \<Rightarrow> Inl (missing_error fs q)
           | Some Dir \<Rightarrow> Inl IsADirectoryError
           | Some (File c) \<Rightarrow> Inr c))"

definition unlink :: "fs \<Rightarrow> path \<Rightarrow> error + fs" where
  "unlink fs p =
     (case node_at fs p of
        None \<Rightarrow> Inl (missing_error fs p)
      | Some Dir \<Rightarrow> Inl IsADirectoryError
      | Some (File c) \<Rightarrow> Inr (AList.delete p fs))"

definition rmdir :: "fs \<Rightarrow> path \<Rightarrow> error + fs" where
  "rmdir fs p =
     (case node_at fs p of
        None \<Rightarrow> Inl (missing_error fs p)
      | Some (File c) \<Rightarrow> Inl NotADirectoryError
      | Some Dir \<Rightarrow>
          if p = [] then Inl OSError
          else if subtree fs p = [] then Inr (AList.delete p fs)
          else Inl OSError)"

definition rmtree :: "fs \<Rightarrow> path \<Rightarrow> error + fs" where
  "rmtree fs p =
     (case node_at fs p of
        None \<Rightarrow> Inl (missing_error fs p)
      | Some (File c) \<Rightarrow> Inl NotADirectoryError
      | Some Dir \<Rightarrow> Inr (filter (\<lambda>(q, n). \<not> prefix p q) fs))"

definition rmtree_ignore_errors :: "fs \<Rightarrow> path \<Rightarrow> fs" where
  "rmtree_ignore_errors fs p = (case rmtree fs p of Inl e \<Rightarrow> fs | Inr fs' \<Rightarrow> fs')"

text \<open>\<open>shutil.copytree(src, dst)\<close>: \<open>dst\<close> must not exist; its parents are created.\<close>

definition copytree :: "fs \<Rightarrow> path \<Rightarrow> path \<Rightarrow> error + fs" where
  "copytree fs src dst =
     (if \<not> is_dir fs src
      then Inl (if path_exists fs src then NotADirectoryError else missing_error fs src)
      else if path_exists fs dst then Inl FileExistsError
      else (case mkdir_parents fs [] dst of
              Inl e \<Rightarrow> Inl e
            | Inr fs' \<Rightarrow> Inr (fs' @ map (\<lambda>(p, n). (dst @ p, n)) (subtree fs src))))"

text \<open>\<open>shutil.copy2(src, dst)\<close>: into \<open>dst\<close> when it is a directory, onto it otherwise.\<close>

definition copy2 :: "fs \<Rightarrow> path \<Rightarrow> path \<Rightarrow> error + fs" where
  "copy2 fs src dst =
     (case read_file fs src of
        Inl e \<Rightarrow> Inl e
      | Inr c \<Rightarrow>
          if src = [] then Inl IsADirectoryError
          else if is_dir fs dst then write_file fs (dst @ [last src]) c
          else write_file fs dst c)"

section \<open>Configuration and state\<close>

text \<open>
  The configuration holds what the module reads from \<open>Config()\<close>, \<open>os.name\<close> and
  \<open>psutil\<close>, and the library functions it calls without defining them: the two hash
  functions behind \<open>hashlib.md5\<close> and \<open>checksumdir.dirhash\<close>, the size in bytes of a
  compressed archive, the two directions of \<open>dt_format\<close>, and which calls of the
  object-store client raise.
\<close>

datatype location = Local | S3

datatype s3_call =
    GetObjectAttributes path | DownloadFile path | UploadFileobj path
  | UploadFile path | DeleteObject path


record config =
  storage :: path
  posix :: bool
  location :: location
  available :: nat
  md5 :: "content \<Rightarrow> string"
  compressed_size :: "archive \<Rightarrow> nat"
  reduce_hash :: "string list \<Rightarrow> string"
  strftime :: "nat \<Rightarrow> string"
  strptime :: "string \<Rightarrow> nat option"
  s3_fails :: "s3_call \<Rightarrow> bool"

text \<open>
  The state: the local files, the working directory of the process, the bucket (each
  object with the last-modified time the server gave it), the server's clock and the
  calls made to the client so far.
\<close>

record world =
  files :: fs
  cwd :: path
  bucket :: "(path \<times> content \<times> nat) list"
  clock :: nat
  calls :: "s3_call list"

type_synonym 'a res = "(error + 'a) \<times> world"

section \<open>copy and get\_dir\_size\<close>

text \<open>\<open>dirhash\<close> hashes the sorted content hashes of the files below a directory.\<close>

definition file_contents :: "fs \<Rightarrow> path \<Rightarrow> content list" where
  "file_contents fs d = concat (map (\<lambda>(p, n). case n of File c \<Rightarrow> [c] | Dir \<Rightarrow> []) (subtree fs d))"

definition dirhash :: "config \<Rightarrow> fs \<Rightarrow> path \<Rightarrow> error + string" where
  "dirhash cfg fs d =
     (if \<not> is_dir fs d then Inl TypeError
      else Inr (reduce_hash cfg (sort (map (md5 cfg) (file_contents fs d)))))"

definition remove_quietly :: "fs \<Rightarrow> path \<Rightarrow> fs" where
  "remove_quietly fs p = (case unlink fs p of Inl e \<Rightarrow> fs | Inr fs' \<Rightarrow> fs')"

definition finish :: "error + fs \<Rightarrow> fs \<Rightarrow> error option \<times> fs" where
  "finish r fs = (case r of Inl e \<Rightarrow> (Some e, fs) | Inr fs' \<Rightarrow> (None, fs'))"

definition copy :: "config \<Rightarrow> fs \<Rightarrow> path \<Rightarrow> path \<Rightarrow> error option \<times> fs" where
  "copy cfg fs src dst =
     (if is_dir fs src then
        (if path_exists fs dst then
           (case dirhash cfg fs dst of
              Inl e \<Rightarrow> (Some e, fs)
            | Inr hdst \<Rightarrow>
                if dirhash cfg fs src = Inr hdst then (None, fs)
                else (let fs1 = rmtree_ignore_errors fs dst in finish (copytree fs1 src dst) fs1))
         else (let fs1 = rmtree_ignore_errors fs dst in finish (copytree fs1 src dst) fs1))
      else
        (if path_exists fs dst then
           (case read_file fs src of
              Inl e \<Rightarrow> (Some e, fs)
            | Inr cs \<Rightarrow>
                (case read_file fs dst of
                   Inl e \<Rightarrow> (Some e, fs)
                 | Inr cd \<Rightarrow>
                     if md5 cfg cs = md5 cfg cd then (None, fs)
                     else (let fs1 = remove_quietly fs dst in finish (copy2 fs1 src dst) fs1)))
         else (let fs1 = remove_quietly fs dst in finish (copy2 fs1 src dst) fs1)))"

fun st_size :: "config \<Rightarrow> content \<Rightarrow> nat" where
  "st_size cfg (Bytes s) = length s"
| "st_size cfg (Gztar a) = compressed_size cfg a"

definition get_dir_size :: "config \<Rightarrow> fs \<Rightarrow> path \<Rightarrow> error + nat" where
  "get_dir_size cfg fs d =
     (case node_at fs d of
        None \<Rightarrow> Inl (missing_error fs d)
      | Some (File c) \<Rightarrow> Inl NotADirectoryError
      | Some Dir \<Rightarrow> Inr (sum_list (map (st_size cfg) (file_contents fs d))))"

section \<open>LocalFSStore\<close>

text \<open>Resource names are relative paths; the stores take them as normalised.\<close>

definition lift_fs :: "error option \<times> fs \<Rightarrow> world \<Rightarrow> unit res" where
  "lift_fs r w = (case r of (None, fs') \<Rightarrow> (Inr (), w\<lparr>files := fs'\<rparr>)
                          | (Some e, fs') \<Rightarrow> (Inl e, w\<lparr>files := fs'\<rparr>))"

definition LocalFSStore_get :: "config \<Rightarrow> path \<Rightarrow> path \<Rightarrow> world \<Rightarrow> unit res" where
  "LocalFSStore_get cfg local_name base_dir w =
     (let src = storage cfg @ local_name; dest = base_dir @ local_name in
      if \<not> path_exists (files w) dest then lift_fs (copy cfg (files w) src dest) w
      else (case get_dir_size cfg (files w) src of
              Inl e \<Rightarrow> (Inl e, w)
            | Inr a \<Rightarrow>
                (case get_dir_size cfg (files w) dest of
                   Inl e \<Rightarrow> (Inl e, w)
                 | Inr b \<Rightarrow> if a \<noteq> b then lift_fs (copy cfg (files w) src dest) w
                            else (Inr (), w))))"

definition LocalFSStore_put :: "config \<Rightarrow> path \<Rightarrow> path \<Rightarrow> world \<Rightarrow> unit res" where
  "LocalFSStore_put cfg local_name base_dir w =
     lift_fs (copy cfg (files w) (base_dir @ local_name) (storage cfg @ local_name)) w"

definition LocalFSStore_delete :: "config \<Rightarrow> path \<Rightarrow> world \<Rightarrow> unit res" where
  "LocalFSStore_delete cfg remote_name w =
     (let p = storage cfg @ remote_name in
      case (if is_file (files w) p then unlink (files w) p else rmtree (files w) p) of
        Inl e \<Rightarrow> if e = FileNotFoundError then (Inr (), w) else (Inl e, w)
      | Inr fs' \<Rightarrow> (Inr (), w\<lparr>files := fs'\<rparr>))"

section \<open>FileLock\<close>

text \<open>
  One process is modelled, so the lock is free whenever its file can be opened; what
  remains of \<open>__enter__\<close> is the creation of the directory and of the lock file, and the
  failure when the file cannot be opened. \<open>__exit__\<close> changes no file.
\<close>

definition FileLock_enter :: "config \<Rightarrow> path \<Rightarrow> world \<Rightarrow> unit res" where
  "FileLock_enter cfg local_path w =
     (if \<not> posix cfg then (Inr (), w)
      else
        (let lock_file_path = local_path @ [''dir.lock''];
             fs0 = files w;
             fs1 = (if \<not> is_file fs0 lock_file_path then
                      (case mkdir_parents fs0 [] local_path of
                         Inl e \<Rightarrow> fs0
                       | Inr fs' \<Rightarrow>
                           (case write_file fs' lock_file_path (Bytes []) of
                              Inl e \<Rightarrow> fs'
                            | Inr fs'' \<Rightarrow> fs''))
                    else fs0)
         in (case read_file fs1 lock_file_path of
               Inl e \<Rightarrow> (Inl e, w\<lparr>files := fs1\<rparr>)
             | Inr c \<Rightarrow> (Inr (), w\<lparr>files := fs1\<rparr>))))"

definition with_FileLock :: "config \<Rightarrow> path \<Rightarrow> (world \<Rightarrow> 'a res) \<Rightarrow> world \<Rightarrow> 'a res" where
  "with_FileLock cfg local_path body w =
     (case FileLock_enter cfg local_path w of
        (Inl e, w') \<Rightarrow> (Inl e, w')
      | (Inr u, w') \<Rightarrow> body w')"

section \<open>S3FSStore\<close>

subsection \<open>Names\<close>

text \<open>\<open>f'{name}.tar.gz'\<close>: the suffix goes to the last component of the name.\<close>

definition zipped_name :: "path \<Rightarrow> path" where
  "zipped_name n = (if n = [] then [''.tar.gz''] else butlast n @ [last n @ ''.tar.gz''])"

text \<open>\<open>str.replace(old, new)\<close> for a non-empty \<open>old\<close>, from left to right.\<close>

function str_replace :: "string \<Rightarrow> string \<Rightarrow> string \<Rightarrow> string" where
  "str_replace old new [] = []"
| "str_replace old new (c # cs) =
     (if old \<noteq> [] \<and> prefix old (c # cs)
      then new @ str_replace old new (drop (length old) (c # cs))
      else c # str_replace old new cs)"
  by pat_completeness auto
termination
  by (relation "measure (\<lambda>(old, new, s). length s)") auto

subsection \<open>The client\<close>

definition log_call :: "s3_call \<Rightarrow> world \<Rightarrow> world" where
  "log_call c w = w\<lparr>calls := calls w @ [c]\<rparr>"

definition get_object_attributes :: "config \<Rightarrow> path \<Rightarrow> world \<Rightarrow> nat res" where
  "get_object_attributes cfg key w =
     (let w' = log_call (GetObjectAttributes key) w in
      if s3_fails cfg (GetObjectAttributes key) then (Inl ClientError, w')
      else (case map_of (bucket w) key of
              None \<Rightarrow> (Inl ClientError, w')
            | Some (c, t) \<Rightarrow> (Inr t, w')))"

definition download_file :: "config \<Rightarrow> path \<Rightarrow> path \<Rightarrow> world \<Rightarrow> unit res" where
  "download_file cfg key local_path w =
     (let w' = log_call (DownloadFile key) w in
      if s3_fails cfg (DownloadFile key) then (Inl ClientError, w')
      else (case map_of (bucket w) key of
              None \<Rightarrow> (Inl ClientError, w')
            | Some (c, t) \<Rightarrow>
                (case write_file (files w) local_path c of
                   Inl e \<Rightarrow> (Inl e, w')
                 | Inr fs' \<Rightarrow> (Inr (), w'\<lparr>files := fs'\<rparr>))))"

text \<open>The server stamps an uploaded object with its own clock.\<close>

definition store_object :: "path \<Rightarrow> content \<Rightarrow> world \<Rightarrow> world" where
  "store_object key c w =
     w\<lparr>bucket := AList.update key (c, clock w) (bucket w), clock := Suc (clock w)\<rparr>"

definition upload :: "config \<Rightarrow> s3_call \<Rightarrow> path \<Rightarrow> content \<Rightarrow> world \<Rightarrow> unit res" where
  "upload cfg call key c w =
     (let w' = log_call call w in
      if s3_fails cfg call then (Inl ClientError, w') else (Inr (), store_object key c w'))"

definition delete_object :: "config \<Rightarrow> path \<Rightarrow> world \<Rightarrow> unit res" where
  "delete_object cfg key w =
     (let w' = log_call (DeleteObject key) w in
      if s3_fails cfg (DeleteObject key) then (Inl ClientError, w')
      else (Inr (), w'\<lparr>bucket := AList.delete key (bucket w')\<rparr>))"

subsection \<open>The last-modified marker\<close>

definition S3FSStore_get_remote_last_modified :: "config \<Rightarrow> path \<Rightarrow> world \<Rightarrow> nat res" where
  "S3FSStore_get_remote_last_modified cfg object_name w = get_object_attributes cfg object_name w"

definition S3FSStore_get_local_last_modified ::
  "config \<Rightarrow> path \<Rightarrow> path \<Rightarrow> world \<Rightarrow> error + nat option" where
  "S3FSStore_get_local_last_modified cfg base_dir local_name w =
     (let last_modified_file_path = pure_path (base_dir @ local_name @ [''last_modified.txt'']) in
      if \<not> os_is_file (files w) last_modified_file_path then Inr None
      else (case read_file (files w) last_modified_file_path of
              Inl e \<Rightarrow> Inl e
            | Inr (Gztar a) \<Rightarrow> Inl ValueError
            | Inr (Bytes last_modified_text) \<Rightarrow>
                (case strptime cfg last_modified_text of
                   None \<Rightarrow> Inl ValueError
                 | Some t \<Rightarrow> Inr (Some t))))"

definition S3FSStore_save_local_last_modified ::
  "config \<Rightarrow> path \<Rightarrow> path \<Rightarrow> nat \<Rightarrow> world \<Rightarrow> unit res" where
  "S3FSStore_save_local_last_modified cfg base_dir local_name last_modified w =
     (let last_modified_file_path = pure_path (base_dir @ local_name @ [''last_modified.txt'']) in
      case write_file (files w) last_modified_file_path (Bytes (strftime cfg last_modified)) of
        Inl e \<Rightarrow> (Inl e, w)
      | Inr fs' \<Rightarrow> (Inr (), w\<lparr>files := fs'\<rparr>))"

subsection \<open>Archives\<close>

text \<open>
  \<open>shutil.unpack_archive(file, dir)\<close>: the file has to hold an archive; its entries are
  written below \<open>dir\<close> in order, and the first failure stops the extraction, leaving what
  was written before.
\<close>

definition extract_entry :: "fs \<Rightarrow> path \<Rightarrow> path \<times> node \<Rightarrow> error + fs" where
  "extract_entry fs base e =
     (case e of
        (rel, Dir) \<Rightarrow> mkdir_parents fs [] (base @ rel)
      | (rel, File c) \<Rightarrow>
          (case mkdir_parents fs [] (butlast (base @ rel)) of
             Inl err \<Rightarrow> Inl err
           | Inr fs' \<Rightarrow> write_file fs' (base @ rel) c))"

fun extractall :: "fs \<Rightarrow> path \<Rightarrow> archive \<Rightarrow> error option \<times> fs" where
  "extractall fs base [] = (None, fs)"
| "extractall fs base (e # es) =
     (case extract_entry fs base e of
        Inl err \<Rightarrow> (Some err, fs)
      | Inr fs' \<Rightarrow> extractall fs' base es)"

definition unpack_archive :: "fs \<Rightarrow> path \<Rightarrow> path \<Rightarrow> error option \<times> fs" where
  "unpack_archive fs filename extract_dir =
     (case read_file fs filename of
        Inl e \<Rightarrow> (Some e, fs)
      | Inr (Bytes b) \<Rightarrow> (Some ReadError, fs)
      | Inr (Gztar a) \<Rightarrow> extractall fs extract_dir a)"

text \<open>
  \<open>tar.add(name)\<close> with a relative name reads the file or tree at \<open>cwd/name\<close> and
  records it under \<open>name\<close>.
\<close>

definition tar_add :: "fs \<Rightarrow> path \<Rightarrow> path \<Rightarrow> error + archive" where
  "tar_add fs cwd0 name =
     (case node_at fs (cwd0 @ name) of
        None \<Rightarrow> Inl (missing_error fs (cwd0 @ name))
      | Some (File c) \<Rightarrow> Inr [(name, File c)]
      | Some Dir \<Rightarrow> Inr ((name, Dir) # map (\<lambda>(p, n). (name @ p, n)) (subtree fs (cwd0 @ name))))"

text \<open>
  The loop of the in-memory branch of \<open>put\<close>. Its test for the two reserved names
  guards a \<open>pass\<close>, so every name of the listing is added.
\<close>

fun add_listing :: "fs \<Rightarrow> path \<Rightarrow> string list \<Rightarrow> error + archive" where
  "add_listing fs cwd0 [] = Inr []"
| "add_listing fs cwd0 (name # names) =
     (case tar_add fs cwd0 [name] of
        Inl e \<Rightarrow> Inl e
      | Inr es \<Rightarrow>
          (case add_listing fs cwd0 names of
             Inl e \<Rightarrow> Inl e
           | Inr rest \<Rightarrow> Inr (es @ rest)))"

text \<open>
  \<open>shutil.make_archive(base_name, 'gztar', root_dir, base_dir)\<close> writes the file
  \<open>base_name + '.tar.gz'\<close>, here \<open>archive_name\<close>, with the tree at \<open>root_dir/base_dir\<close>
  recorded under \<open>base_dir\<close>. The archive file is created before the tree is read, so
  a missing tree leaves an empty archive behind the error.
\<close>

definition make_archive :: "fs \<Rightarrow> path \<Rightarrow> path \<Rightarrow> path \<Rightarrow> error option \<times> fs" where
  "make_archive fs archive_name root_dir base_dir0 =
     (case write_file fs archive_name (Gztar []) of
        Inl e \<Rightarrow> (Some e, fs)
      | Inr fs1 \<Rightarrow>
          (case tar_add fs root_dir base_dir0 of
             Inl e \<Rightarrow> (Some e, fs1)
           | Inr es \<Rightarrow> finish (write_file fs1 archive_name (Gztar es)) fs1))"

subsection \<open>get\<close>

definition S3FSStore_download ::
  "config \<Rightarrow> path \<Rightarrow> path \<Rightarrow> path \<Rightarrow> nat option \<Rightarrow> world \<Rightarrow> unit res" where
  "S3FSStore_download cfg base_dir remote_ziped_name local_ziped_path last_modified w =
     (case makedirs_exist_ok (files w) base_dir of
        Inl e \<Rightarrow> (Inl e, w)
      | Inr fs1 \<Rightarrow>
          (case download_file cfg remote_ziped_name local_ziped_path (w\<lparr>files := fs1\<rparr>) of
             (Inl e, w2) \<Rightarrow> (Inl e, w2)
           | (Inr u, w2) \<Rightarrow>
               (case unpack_archive (files w2) local_ziped_path base_dir of
                  (Some e, fs3) \<Rightarrow> (Inl e, w2\<lparr>files := fs3\<rparr>)
                | (None, fs3) \<Rightarrow>
                    (case unlink fs3 local_ziped_path of
                       Inl e \<Rightarrow> (Inl e, w2\<lparr>files := fs3\<rparr>)
                     | Inr fs4 \<Rightarrow>
                         (case (case last_modified of
                                  None \<Rightarrow> S3FSStore_get_remote_last_modified cfg remote_ziped_name
                                            (w2\<lparr>files := fs4\<rparr>)
                                | Some t \<Rightarrow> (Inr t, w2\<lparr>files := fs4\<rparr>)) of
                            (Inl e, w5) \<Rightarrow> (Inl e, w5)
                          | (Inr t, w5) \<Rightarrow>
                              S3FSStore_save_local_last_modified cfg base_dir
                                (map (str_replace ''tar.gz'' []) remote_ziped_name) t w5)))))"

definition S3FSStore_get :: "config \<Rightarrow> path \<Rightarrow> path \<Rightarrow> world \<Rightarrow> unit res" where
  "S3FSStore_get cfg local_name base_dir w =
     (let remote_ziped_name = zipped_name local_name;
          local_ziped_path = base_dir @ zipped_name local_name in
      case S3FSStore_get_local_last_modified cfg base_dir local_name w of
        Inl e \<Rightarrow> (Inl e, w)
      | Inr local_last_modified \<Rightarrow>
          (case S3FSStore_get_remote_last_modified cfg remote_ziped_name w of
             (Inl e, w1) \<Rightarrow> (Inl e, w1)
           | (Inr remote_last_modified, w1) \<Rightarrow>
               if local_last_modified \<noteq> None \<and> local_last_modified = Some remote_last_modified
               then (Inr (), w1)
               else S3FSStore_download cfg base_dir remote_ziped_name local_ziped_path
                      (Some remote_last_modified) w1))"

subsection \<open>put and delete\<close>

text \<open>
  The in-memory branch writes the archive into a byte stream and hands the stream to
  \<open>upload_fileobj\<close> without rewinding it; the client reads a stream from its current
  position, so what it sends is what follows the position.
\<close>

definition stream_rest :: "content \<Rightarrow> bool \<Rightarrow> content" where
  "stream_rest written at_end = (if at_end then Bytes [] else written)"

definition put_in_memory :: "config \<Rightarrow> path \<Rightarrow> path \<Rightarrow> world \<Rightarrow> unit res" where
  "put_in_memory cfg local_name base_dir w =
     (let old_cwd = cwd w; dir_path = base_dir @ local_name in
      if \<not> is_dir (files w) base_dir then
        (Inl (if path_exists (files w) base_dir then NotADirectoryError
              else missing_error (files w) base_dir), w)
      else if \<not> is_dir (files w) dir_path then
        (Inl (if path_exists (files w) dir_path then NotADirectoryError
              else missing_error (files w) dir_path),
         w\<lparr>cwd := base_dir\<rparr>)
      else (case add_listing (files w) base_dir (iterdir (files w) dir_path) of
              Inl e \<Rightarrow> (Inl e, w\<lparr>cwd := base_dir\<rparr>)
            | Inr es \<Rightarrow>
                upload cfg (UploadFileobj (zipped_name local_name)) (zipped_name local_name)
                  (stream_rest (Gztar es) True) (w\<lparr>cwd := old_cwd\<rparr>)))"

definition put_on_disk :: "config \<Rightarrow> path \<Rightarrow> path \<Rightarrow> world \<Rightarrow> unit res" where
  "put_on_disk cfg local_name base_dir w =
     (case make_archive (files w) (base_dir @ zipped_name local_name) base_dir local_name of
        (Some e, fs1) \<Rightarrow> (Inl e, w\<lparr>files := fs1\<rparr>)
      | (None, fs1) \<Rightarrow>
          (case read_file fs1 (base_dir @ zipped_name local_name) of
             Inl e \<Rightarrow> (Inl e, w\<lparr>files := fs1\<rparr>)
           | Inr c \<Rightarrow>
               (case upload cfg (UploadFile (zipped_name local_name)) (zipped_name local_name) c
                       (w\<lparr>files := fs1\<rparr>) of
                  (Inl e, w2) \<Rightarrow> (Inl e, w2)
                | (Inr u, w2) \<Rightarrow>
                    (case unlink (files w2) (base_dir @ zipped_name local_name) of
                       Inl e \<Rightarrow> (Inl e, w2)
                     | Inr fs3 \<Rightarrow> (Inr (), w2\<lparr>files := fs3\<rparr>)))))"

definition dir_size :: "config \<Rightarrow> fs \<Rightarrow> path \<Rightarrow> nat" where
  "dir_size cfg fs dir_path = sum_list (map (st_size cfg) (file_contents fs dir_path))"

definition in_memory_branch :: "config \<Rightarrow> path \<Rightarrow> path \<Rightarrow> world \<Rightarrow> bool" where
  "in_memory_branch cfg local_name base_dir w =
     (dir_size cfg (files w) (base_dir @ local_name) * 2 < available cfg)"

definition S3FSStore_put :: "config \<Rightarrow> path \<Rightarrow> path \<Rightarrow> world \<Rightarrow> unit res" where
  "S3FSStore_put cfg local_name base_dir w =
     (case (if in_memory_branch cfg local_name base_dir w
            then put_in_memory cfg local_name base_dir w
            else put_on_disk cfg local_name base_dir w) of
        (Inl e, w1) \<Rightarrow> (Inl e, w1)
      | (Inr u, w1) \<Rightarrow>
          (case S3FSStore_get_remote_last_modified cfg (zipped_name local_name) w1 of
             (Inl e, w2) \<Rightarrow> (Inl e, w2)
           | (Inr last_modified, w2) \<Rightarrow>
               S3FSStore_save_local_last_modified cfg base_dir local_name last_modified w2))"

definition S3FSStore_delete :: "config \<Rightarrow> path \<Rightarrow> world \<Rightarrow> unit res" where
  "S3FSStore_delete cfg remote_name w = delete_object cfg remote_name w"

section \<open>FsStore\<close>

definition fs_store_get :: "config \<Rightarrow> path \<Rightarrow> path \<Rightarrow> world \<Rightarrow> unit res" where
  "fs_store_get cfg = (case location cfg of Local \<Rightarrow> LocalFSStore_get cfg | S3 \<Rightarrow> S3FSStore_get cfg)"

definition fs_store_put :: "config \<Rightarrow> path \<Rightarrow> path \<Rightarrow> world \<Rightarrow> unit res" where
  "fs_store_put cfg = (case location cfg of Local \<Rightarrow> LocalFSStore_put cfg | S3 \<Rightarrow> S3FSStore_put cfg)"

definition fs_store_delete :: "config \<Rightarrow> path \<Rightarrow> world \<Rightarrow> unit res" where
  "fs_store_delete cfg =
     (case location cfg of Local \<Rightarrow> LocalFSStore_delete cfg | S3 \<Rightarrow> S3FSStore_delete cfg)"

section \<open>FileStorage\<close>

text \<open>
  An instance keeps its resource group, its folder name, the content root it read from the
  configuration and its synchronisation flag. The resource id arrives as its decimal
  text, the tenant as the text the context formats to.
\<close>

record FileStorage =
  resource_group :: string
  folder_name :: string
  content_path :: path
  sync :: bool

definition resource_group_path :: "FileStorage \<Rightarrow> path" where
  "resource_group_path st = content_path st @ [resource_group st]"

definition folder_path :: "FileStorage \<Rightarrow> path" where
  "folder_path st = resource_group_path st @ [folder_name st]"

definition FileStorage_init ::
  "string \<Rightarrow> string \<Rightarrow> string \<Rightarrow> path \<Rightarrow> bool \<Rightarrow> world \<Rightarrow> FileStorage res" where
  "FileStorage_init grp company_id resource_id root sync0 w =
     (let st = \<lparr>resource_group = grp,
                folder_name = grp @ ''_'' @ company_id @ ''_'' @ resource_id,
                content_path = root, sync = sync0\<rparr> in
      if \<not> path_exists (files w) (folder_path st) then
        (case mkdir_parents (files w) [] (folder_path st) of
           Inl e \<Rightarrow> (Inl e, w)
         | Inr fs' \<Rightarrow> (Inr st, w\<lparr>files := fs'\<rparr>))
      else (Inr st, w))"

definition push_no_lock :: "config \<Rightarrow> FileStorage \<Rightarrow> world \<Rightarrow> unit res" where
  "push_no_lock cfg st w = fs_store_put cfg [folder_name st] (resource_group_path st) w"

definition push :: "config \<Rightarrow> FileStorage \<Rightarrow> world \<Rightarrow> unit res" where
  "push cfg st w = with_FileLock cfg (folder_path st) (push_no_lock cfg st) w"

definition pull_no_lock :: "config \<Rightarrow> FileStorage \<Rightarrow> world \<Rightarrow> unit res" where
  "pull_no_lock cfg st w =
     (case fs_store_get cfg [folder_name st] (resource_group_path st) w of
        (Inl e, w') \<Rightarrow> (Inr (), w')
      | (Inr u, w') \<Rightarrow> (Inr (), w'))"

definition pull :: "config \<Rightarrow> FileStorage \<Rightarrow> world \<Rightarrow> unit res" where
  "pull cfg st w = with_FileLock cfg (folder_path st) (pull_no_lock cfg st) w"

text \<open>The sub-path of \<open>pull_path\<close> is taken as relative.\<close>

definition pull_path :: "config \<Rightarrow> FileStorage \<Rightarrow> path \<Rightarrow> bool \<Rightarrow> world \<Rightarrow> unit res" where
  "pull_path cfg st path0 update w =
     with_FileLock cfg (folder_path st)
       (\<lambda>w1. if \<not> update \<and> os_exists (files w1) (folder_path st @ pure_path path0)
             then (Inr (), w1)
             else (case fs_store_get cfg (folder_name st # path0) (resource_group_path st) w1 of
                     (Inl e, w') \<Rightarrow> (Inr (), w')
                   | (Inr u, w') \<Rightarrow> (Inr (), w'))) w"

definition sync_pull :: "config \<Rightarrow> FileStorage \<Rightarrow> world \<Rightarrow> world" where
  "sync_pull cfg st w = (if sync st then snd (pull_no_lock cfg st w) else w)"

definition sync_push :: "config \<Rightarrow> FileStorage \<Rightarrow> world \<Rightarrow> unit res" where
  "sync_push cfg st w = (if sync st then push_no_lock cfg st w else (Inr (), w))"

definition file_set :: "config \<Rightarrow> FileStorage \<Rightarrow> rpath \<Rightarrow> content \<Rightarrow> world \<Rightarrow> unit res" where
  "file_set cfg st name content0 w =
     with_FileLock cfg (folder_path st)
       (\<lambda>w1. let w2 = sync_pull cfg st w1; dest_abs_path = joinpath (folder_path st) name in
             case write_file (files w2) dest_abs_path content0 of
               Inl e \<Rightarrow> (Inl e, w2)
             | Inr fs' \<Rightarrow> sync_push cfg st (w2\<lparr>files := fs'\<rparr>)) w"


definition get_path :: "config \<Rightarrow> FileStorage \<Rightarrow> rpath \<Rightarrow> world \<Rightarrow> path res" where
  "get_path cfg st relative_path w =
     with_FileLock cfg (folder_path st)
       (\<lambda>w1. let w2 = sync_pull cfg st w1 in
             if is_absolute relative_path then (Inl TypeError, w2)
             else (let ret_path = joinpath (folder_path st) relative_path in
                   if \<not> os_exists (files w2) ret_path then
                     (case makedirs (files w2) [] ret_path of
                        (Some e, fs') \<Rightarrow> (Inl e, w2\<lparr>files := fs'\<rparr>)
                      | (None, fs') \<Rightarrow> (Inr ret_path, w2\<lparr>files := fs'\<rparr>))
                   else (Inr ret_path, w2))) w"

definition complete_removal :: "config \<Rightarrow> FileStorage \<Rightarrow> world \<Rightarrow> unit res" where
  "complete_removal cfg st w =
     (case fs_store_delete cfg [folder_name st] w of
        (Inl e, w1) \<Rightarrow> (Inl e, w1)
      | (Inr u, w1) \<Rightarrow>
          (case rmtree (files w1) (folder_path st) of
             Inl e \<Rightarrow> (Inl e, w1)
           | Inr fs' \<Rightarrow> (Inr (), w1\<lparr>files := fs'\<rparr>)))"

definition delete :: "config \<Rightarrow> FileStorage \<Rightarrow> rpath \<Rightarrow> world \<Rightarrow> unit res" where
  "delete cfg st relative_path w =
     with_FileLock cfg (folder_path st)
       (\<lambda>w1. if is_absolute relative_path then (Inl TypeError, w1)
             else (let path0 = resolve (joinpath (folder_path st) relative_path) in
                   if path0 = resolve (folder_path st) then complete_removal cfg st w1
                   else (let w2 = sync_pull cfg st w1 in
                         if \<not> path_exists (files w2) path0 then (Inl PathDoesNotExist, w2)
                         else (case (if is_file (files w2) path0 then unlink (files w2) path0
                                     else rmdir (files w2) path0) of
                                 Inl e \<Rightarrow> (Inl e, w2)
                               | Inr fs' \<Rightarrow> sync_push cfg st (w2\<lparr>files := fs'\<rparr>))))) w"

section \<open>A concrete installation\<close>

text \<open>
  One resource, \<open>g_1_7\<close> of group \<open>g\<close>, cached below \<open>/c\<close>; the local store keeps its
  copies below \<open>/s\<close>. The hashes are the identity on plain bytes and the time format
  writes a number in unary, so that both directions can be computed.
\<close>

definition example_config :: "location \<Rightarrow> nat \<Rightarrow> config" where
  "example_config loc mem =
     \<lparr>storage = [''s''], posix = True, location = loc, available = mem,
      md5 = (\<lambda>c. case c of Bytes b \<Rightarrow> b | Gztar a \<Rightarrow> []),
      compressed_size = (\<lambda>a. 0), reduce_hash = concat,
      strftime = (\<lambda>t. replicate t (CHR ''I'')), strptime = (\<lambda>s. Some (length s)),
      s3_fails = (\<lambda>c. False)\<rparr>"

definition example_storage :: "bool \<Rightarrow> FileStorage" where
  "example_storage sync0 =
     \<lparr>resource_group = ''g'', folder_name = ''g_1_7'', content_path = [''c''], sync = sync0\<rparr>"

definition example_files :: fs where
  "example_files =
     [([''c''], Dir), ([''c'', ''g''], Dir), ([''c'', ''g'', ''g_1_7''], Dir),
      ([''c'', ''g'', ''g_1_7'', ''dir.lock''], File (Bytes [])),
      ([''c'', ''g'', ''g_1_7'', ''m''], File (Bytes ''ab'')),
      ([''c'', ''g'', ''v''], File (Bytes ''x'')),
      ([''s''], Dir)]"

definition example_world :: world where
  "example_world =
     \<lparr>files = example_files, cwd = [], bucket = [([''g_1_7.tar.gz''], (Gztar [], 3))],
      clock = 4, calls = []\<rparr>"

definition empty_world :: world where
  "empty_world = \<lparr>files = [], cwd = [], bucket = [], clock = 0, calls = []\<rparr>"

text \<open>Every directory on the way to \<open>p\<close>, and \<open>p\<close> itself, is a directory.\<close>

definition ancestors_are_dirs :: "fs \<Rightarrow> path \<Rightarrow> bool" where
  "ancestors_are_dirs fs p = list_all (is_dir fs) (prefixes p)"

text \<open>
  A well-formed tree: every entry sits in a directory. The root is not an entry.
\<close>

definition wf_fs :: "fs \<Rightarrow> bool" where
  "wf_fs fs = list_all (\<lambda>(p, n). p \<noteq> [] \<and> is_dir fs (butlast p)) fs"

text \<open>
  The failures of a store's \<open>get\<close> that come before it has written anything: the remote
  object does not exist, the query for its attributes fails, its download fails (the base
  directory being in place), or the local store holds no copy.
\<close>

definition fails_before_writing :: "config \<Rightarrow> path \<Rightarrow> path \<Rightarrow> world \<Rightarrow> bool" where
  "fails_before_writing cfg n b w =
     (case location cfg of
        S3 \<Rightarrow>
          map_of (bucket w) (zipped_name n) = None
          \<or> s3_fails cfg (GetObjectAttributes (zipped_name n))
          \<or> (s3_fails cfg (DownloadFile (zipped_name n)) \<and> ancestors_are_dirs (files w) b)
      | Local \<Rightarrow> \<not> path_exists (files w) (storage cfg @ n) \<and> ''..'' \<notin> set (storage cfg @ n))"

section \<open>Facts about the file operations\<close>

lemma walk_plain: "''..'' \<notin> set p \<Longrightarrow> walk fs acc p = Inr (acc @ p)"
  by (induction p arbitrary: acc) auto

lemma mkdir_parents_existing:
  "(\<And>q. prefix q cs \<Longrightarrow> is_dir fs (acc @ q)) \<Longrightarrow> mkdir_parents fs acc cs = Inr fs"
proof (induction cs arbitrary: acc)
  case Nil
  then show ?case by simp
next
  case (Cons c cs)
  have "is_dir fs (acc @ [c])" using Cons.prems [of "[c]"] by simp
  moreover have "mkdir_parents fs (acc @ [c]) cs = Inr fs"
  proof (rule Cons.IH)
    fix q assume "prefix q cs"
    then show "is_dir fs ((acc @ [c]) @ q)" using Cons.prems [of "c # q"] by simp
  qed
  ultimately show ?case by (simp add: is_dir_def)
qed

lemma mkdir_parents_new:
  "(\<And>q. prefix q cs \<Longrightarrow> is_dir fs (acc @ q)) \<Longrightarrow> node_at fs (acc @ cs @ [c]) = None
   \<Longrightarrow> mkdir_parents fs acc (cs @ [c]) = Inr (fs @ [(acc @ cs @ [c], Dir)])"
proof (induction cs arbitrary: acc)
  case Nil
  then show ?case by simp
next
  case (Cons d cs)
  have "is_dir fs (acc @ [d])" using Cons.prems(1) [of "[d]"] by simp
  moreover have "mkdir_parents fs (acc @ [d]) (cs @ [c]) = Inr (fs @ [((acc @ [d]) @ cs @ [c], Dir)])"
  proof (rule Cons.IH)
    fix q assume "prefix q cs"
    then show "is_dir fs ((acc @ [d]) @ q)" using Cons.prems(1) [of "d # q"] by simp
  next
    show "node_at fs ((acc @ [d]) @ cs @ [c]) = None" using Cons.prems(2) by simp
  qed
  ultimately show ?case by (simp add: is_dir_def)
qed

lemma map_of_filter_None: "(\<And>v. \<not> P (k, v)) \<Longrightarrow> map_of (filter P xs) k = None"
  by (induction xs) auto

lemma node_at_append_new:
  "node_at fs k = None \<Longrightarrow> node_at (fs @ [(k, v)]) q = (if q = k then Some v else node_at fs q)"
  by (auto simp: node_at_def map_add_def split: option.splits if_splits)

lemma node_at_update:
  "k \<noteq> [] \<Longrightarrow> node_at (AList.update k v fs) q = (if q = k then Some v else node_at fs q)"
  by (simp add: node_at_def update_conv')


lemma complete_removal_files:
  "complete_removal cfg st w0 = (Inr (), w1)
   \<Longrightarrow> \<exists>fs. files w1 = filter (\<lambda>(q, n). \<not> prefix (folder_path st) q) fs"
  by (auto simp: complete_removal_def rmtree_def split: prod.splits sum.splits option.splits node.splits)

lemma delete_root_files:
  assumes "delete cfg st (Rel [''.'']) w = (Inr (), w1)"
  shows "\<exists>fs. files w1 = filter (\<lambda>(q, n). \<not> prefix (folder_path st) q) fs"
proof -
  obtain r w0 where e: "FileLock_enter cfg (folder_path st) w = (r, w0)"
    by (cases "FileLock_enter cfg (folder_path st) w")
  from assms e have "complete_removal cfg st w0 = (Inr (), w1)"
    by (cases r) (simp_all add: delete_def with_FileLock_def pure_path_def)
  then show ?thesis by (rule complete_removal_files)
qed

lemma removed_absent:
  assumes "files w1 = filter (\<lambda>(q, n). \<not> prefix d q) fs" "prefix d q" "q \<noteq> []"
  shows "node_at (files w1) q = None"
  using assms by (simp add: node_at_def map_of_filter_None)

lemma FileLock_enter_keeps_remote:
  "bucket (snd (FileLock_enter cfg d w)) = bucket w \<and> calls (snd (FileLock_enter cfg d w)) = calls w
   \<and> clock (snd (FileLock_enter cfg d w)) = clock w \<and> cwd (snd (FileLock_enter cfg d w)) = cwd w"
  by (simp add: FileLock_enter_def Let_def split: sum.splits)

lemma FileLock_enter_present:
  "is_file (files w) (d @ [''dir.lock'']) \<Longrightarrow> snd (FileLock_enter cfg d w) = w"
  by (simp add: FileLock_enter_def Let_def split: sum.splits)

lemma pull_no_lock_returns: "fst (pull_no_lock cfg st w) = Inr ()"
  by (simp add: pull_no_lock_def split: prod.splits sum.splits)


lemma S3FSStore_get_unreachable:
  assumes "s3_fails cfg (GetObjectAttributes (zipped_name n)) \<or> map_of (bucket w) (zipped_name n) = None"
  shows "files (snd (S3FSStore_get cfg n b w)) = files w"
  using assms
  by (auto simp: S3FSStore_get_def S3FSStore_get_remote_last_modified_def get_object_attributes_def
      log_call_def Let_def split: sum.splits prod.splits option.splits)

lemma S3FSStore_get_download_fails:
  assumes "s3_fails cfg (DownloadFile (zipped_name n))" "ancestors_are_dirs (files w) b"
  shows "files (snd (S3FSStore_get cfg n b w)) = files w"
proof -
  have m: "makedirs_exist_ok (files w) b = Inr (files w)"
    unfolding makedirs_exist_ok_def
    using assms(2) by (intro mkdir_parents_existing) (simp add: ancestors_are_dirs_def list_all_iff in_set_prefixes)
  have d: "files (snd (S3FSStore_download cfg b (zipped_name n) p t w')) = files w'"
    if "files w' = files w" for p t w'
    using that assms(1) by (simp add: S3FSStore_download_def m download_file_def log_call_def Let_def)
  show ?thesis
    by (auto simp: S3FSStore_get_def S3FSStore_get_remote_last_modified_def get_object_attributes_def
        log_call_def Let_def d split: sum.splits prod.splits option.splits)
qed

lemma LocalFSStore_get_missing:
  assumes "\<not> path_exists (files w) (storage cfg @ n)" "''..'' \<notin> set (storage cfg @ n)"
  shows "files (snd (LocalFSStore_get cfg n b w)) = files w"
proof -
  let ?src = "storage cfg @ n" and ?fs = "files w"
  have nn: "node_at ?fs ?src = None" using assms(1) by (simp add: path_exists_def)
  have g: "get_dir_size cfg ?fs ?src = Inl (missing_error ?fs ?src)"
    by (simp add: get_dir_size_def nn)
  have r: "read_file ?fs ?src = Inl (missing_error ?fs ?src)"
    using walk_plain [OF assms(2), of ?fs "[]"] by (simp add: read_file_def nn)
  have c: "snd (copy cfg ?fs ?src d) = ?fs" for d
    by (auto simp: copy_def is_dir_def nn r copy2_def finish_def Let_def remove_quietly_def
        unlink_def path_exists_def split: option.splits node.splits sum.splits)
  have l: "files (snd (lift_fs (copy cfg ?fs ?src d) w)) = ?fs" for d
    using c [of d] by (cases "copy cfg ?fs ?src d") (auto simp: lift_fs_def split: option.splits)
  show ?thesis
    by (simp add: LocalFSStore_get_def Let_def g l)
qed

lemma fs_store_get_fails_before_writing:
  assumes "fails_before_writing cfg n b w"
  shows "files (snd (fs_store_get cfg n b w)) = files w"
proof (cases "location cfg")
  case Local
  with assms show ?thesis
    by (simp add: fails_before_writing_def fs_store_get_def LocalFSStore_get_missing)
next
  case S3
  with assms have "map_of (bucket w) (zipped_name n) = None
      \<or> s3_fails cfg (GetObjectAttributes (zipped_name n))
      \<or> (s3_fails cfg (DownloadFile (zipped_name n)) \<and> ancestors_are_dirs (files w) b)"
    by (simp add: fails_before_writing_def)
  then have "files (snd (S3FSStore_get cfg n b w)) = files w"
    using S3FSStore_get_unreachable [of cfg n w b] S3FSStore_get_download_fails [of cfg n w b]
    by blast
  with S3 show ?thesis by (simp add: fs_store_get_def)
qed

lemma pull_path_state:
  assumes "FileLock_enter cfg (folder_path st) w = (Inr (), w0)"
  shows "pull_path cfg st p u w
    = (Inr (), if \<not> u \<and> os_exists (files w0) (folder_path st @ pure_path p) then w0
               else snd (fs_store_get cfg (folder_name st # p) (resource_group_path st) w0))"
  using assms by (simp add: pull_path_def with_FileLock_def split: prod.splits sum.splits)

lemma pull_state:
  assumes "FileLock_enter cfg (folder_path st) w = (Inr (), w0)"
  shows "pull cfg st w = (Inr (), snd (fs_store_get cfg [folder_name st] (resource_group_path st) w0))"
  using assms
  by (simp add: pull_def with_FileLock_def pull_no_lock_def split: prod.splits sum.splits)

subsection \<open>Copying a directory twice\<close>

lemma node_at_append_keep: "node_at fs q = Some v \<Longrightarrow> node_at (fs @ ex) q = Some v"
  by (auto simp: node_at_def map_add_def split: if_splits option.splits)

lemma mkdir_parents_appends:
  "mkdir_parents fs acc cs = Inr fs'
   \<Longrightarrow> \<exists>ds. fs' = fs @ ds \<and> (\<forall>(q, n) \<in> set ds. n = Dir \<and> prefix q (acc @ cs))"
proof (induction cs arbitrary: fs acc)
  case Nil
  then show ?case by simp
next
  case (Cons c cs)
  show ?case
  proof (cases "node_at fs (acc @ [c])")
    case None
    with Cons.prems have "mkdir_parents (fs @ [(acc @ [c], Dir)]) (acc @ [c]) cs = Inr fs'" by simp
    from Cons.IH [OF this] obtain ds where
      d: "fs' = (fs @ [(acc @ [c], Dir)]) @ ds" "\<forall>(q, n) \<in> set ds. n = Dir \<and> prefix q ((acc @ [c]) @ cs)"
      by blast
    have "fs' = fs @ ((acc @ [c], Dir) # ds)" using d(1) by simp
    moreover have "\<forall>(q, n) \<in> set ((acc @ [c], Dir) # ds). n = Dir \<and> prefix q (acc @ c # cs)"
      using d(2) by auto
    ultimately show ?thesis by blast
  next
    case (Some n)
    show ?thesis
    proof (cases n)
      case (File x)
      with Some Cons.prems show ?thesis by simp
    next
      case Dir
      with Some Cons.prems have "mkdir_parents fs (acc @ [c]) cs = Inr fs'" by simp
      from Cons.IH [OF this] show ?thesis by simp
    qed
  qed
qed

lemma mkdir_parents_is_dir:
  "mkdir_parents fs acc cs = Inr fs' \<Longrightarrow> cs \<noteq> [] \<Longrightarrow> is_dir fs' (acc @ cs)"
proof (induction cs arbitrary: fs acc)
  case Nil
  then show ?case by simp
next
  case (Cons c cs)
  show ?case
  proof (cases "node_at fs (acc @ [c])")
    case None
    with Cons.prems have m: "mkdir_parents (fs @ [(acc @ [c], Dir)]) (acc @ [c]) cs = Inr fs'" by simp
    show ?thesis
    proof (cases "cs = []")
      case True
      with m have "fs' = fs @ [(acc @ [c], Dir)]" by simp
      then show ?thesis using node_at_append_new [OF None, of Dir "acc @ [c]"] True
        by (simp add: is_dir_def)
    next
      case False
      from Cons.IH [OF m False] show ?thesis by simp
    qed
  next
    case (Some n)
    show ?thesis
    proof (cases n)
      case (File x)
      with Some Cons.prems show ?thesis by simp
    next
      case Dir
      with Some Cons.prems have m: "mkdir_parents fs (acc @ [c]) cs = Inr fs'" by simp
      show ?thesis
      proof (cases "cs = []")
        case True
        with m Some Dir show ?thesis by (simp add: is_dir_def)
      next
        case False
        from Cons.IH [OF m False] show ?thesis by simp
      qed
    qed
  qed
qed

lemma update_absent: "map_of fs k = None \<Longrightarrow> AList.update k v fs = fs @ [(k, v)]"
  by (induction fs) (auto split: if_splits)

lemma subtree_append: "subtree (a @ b) d = subtree a d @ subtree b d"
  by (simp add: subtree_def)

lemma file_contents_append: "file_contents (a @ b) d = file_contents a d @ file_contents b d"
  by (simp add: file_contents_def subtree_append)

lemma file_contents_dirs: "\<forall>(q, n) \<in> set ds. n = Dir \<Longrightarrow> file_contents ds d = []"
  by (induction ds) (auto simp: file_contents_def subtree_def)

lemma wf_fs_ancestor:
  "wf_fs fs \<Longrightarrow> (p, n) \<in> set fs \<Longrightarrow> prefix q p \<Longrightarrow> node_at fs q \<noteq> None"
proof (induction p arbitrary: n q rule: rev_induct)
  case Nil
  then show ?case by (simp add: node_at_def)
next
  case (snoc c p')
  show ?case
  proof (cases "q = p' @ [c]")
    case True
    have "map_of fs (p' @ [c]) \<noteq> None"
      using snoc.prems(2) by (metis map_of_eq_None_iff fst_conv image_eqI)
    then show ?thesis using True by (simp add: node_at_def)
  next
    case False
    with snoc.prems(3) have q: "prefix q p'" by (simp add: prefix_snoc)
    have "is_dir fs p'" using snoc.prems(1,2) by (auto simp: wf_fs_def list_all_iff)
    show ?thesis
    proof (cases "p' = []")
      case True
      with q show ?thesis by (simp add: node_at_def)
    next
      case False
      with \<open>is_dir fs p'\<close> have "map_of fs p' = Some Dir" by (simp add: is_dir_def node_at_def)
      then have "(p', Dir) \<in> set fs" by (rule map_of_SomeD)
      from snoc.IH [OF snoc.prems(1) this q] show ?thesis .
    qed
  qed
qed

lemma wf_fs_no_orphans:
  assumes "wf_fs fs" "node_at fs d = None"
  shows "subtree fs d = []"
proof (rule ccontr)
  assume "subtree fs d \<noteq> []"
  then obtain p n where "(p, n) \<in> set fs" "strict_prefix d p"
    by (auto simp: subtree_def filter_empty_conv)
  then have "node_at fs d \<noteq> None" using wf_fs_ancestor [OF assms(1), of p n d] by (simp add: strict_prefix_def)
  with assms(2) show False by simp
qed

lemma subtree_nonempty_paths: "(p, n) \<in> set (subtree fs d) \<Longrightarrow> p \<noteq> []"
  by (auto simp: subtree_def strict_prefix_def prefix_def)

lemma subtree_rebased:
  "\<forall>(p, n) \<in> set S. p \<noteq> [] \<Longrightarrow> subtree (map (\<lambda>(p, n). (dst @ p, n)) S) dst = S"
  by (induction S) (auto simp: subtree_def strict_prefix_def)

lemma subtree_rebased_other:
  assumes "\<not> prefix src dst" "\<not> prefix dst src"
  shows "subtree (map (\<lambda>(p, n). (dst @ p, n)) S) src = []"
proof -
  have "\<not> strict_prefix src (dst @ p)" for p
    using assms prefix_same_cases [of src "dst @ p" dst] by (auto simp: strict_prefix_def)
  then show ?thesis by (auto simp: subtree_def filter_empty_conv)
qed

lemma subtree_removed: "subtree (filter (\<lambda>(q, n). \<not> prefix d q) fs) d = []"
  by (auto simp: subtree_def filter_empty_conv strict_prefix_def)

lemma map_of_filter_keep: "(\<And>v. P (k, v)) \<Longrightarrow> map_of (filter P xs) k = map_of xs k"
  by (induction xs) auto

lemma node_at_rmtree_keep:
  "\<not> prefix d q \<Longrightarrow> node_at (rmtree_ignore_errors fs d) q = node_at fs q"
  by (auto simp: rmtree_ignore_errors_def rmtree_def node_at_def map_of_filter_keep
      split: option.splits node.splits)

lemma copytree_result:
  assumes ct: "copytree fs1 src dst = Inr fs2"
    and inc: "\<not> prefix src dst" "\<not> prefix dst src"
    and empty: "subtree fs1 dst = []"
  shows "is_dir fs2 src \<and> is_dir fs2 dst
    \<and> file_contents fs2 dst = file_contents fs2 src
    \<and> (\<forall>q v. node_at fs1 q = Some v \<longrightarrow> node_at fs2 q = Some v)"
proof -
  from ct have sd: "is_dir fs1 src" and nd: "\<not> path_exists fs1 dst"
    by (auto simp: copytree_def split: if_splits)
  from ct sd nd obtain fs' where mk: "mkdir_parents fs1 [] dst = Inr fs'"
    and fs2: "fs2 = fs' @ map (\<lambda>(p, n). (dst @ p, n)) (subtree fs1 src)"
    by (auto simp: copytree_def split: sum.splits)
  have dne: "dst \<noteq> []" using nd by (auto simp: path_exists_def node_at_def)
  obtain ds where ds: "fs' = fs1 @ ds" "\<forall>(q, n) \<in> set ds. n = Dir \<and> prefix q ([] @ dst)"
    using mkdir_parents_appends [OF mk] by blast
  have dd: "is_dir fs' dst" using mkdir_parents_is_dir [OF mk dne] by simp
  let ?cp = "map (\<lambda>(p, n). (dst @ p, n)) (subtree fs1 src)"
  have keep: "node_at fs2 q = Some v" if "node_at fs1 q = Some v" for q v
    using that by (simp add: fs2 ds(1) node_at_append_keep)
  have d2: "is_dir fs2 dst" using dd by (simp add: fs2 is_dir_def node_at_append_keep)
  have s2: "is_dir fs2 src" using sd keep by (simp add: is_dir_def)
  have dirs: "\<forall>(q, n) \<in> set ds. n = Dir" using ds(2) by auto
  have ne: "\<forall>(p, n) \<in> set (subtree fs1 src). p \<noteq> []"
    using subtree_nonempty_paths by fastforce
  have "file_contents fs2 src = file_contents fs1 src"
    by (simp add: fs2 ds(1) file_contents_append file_contents_dirs [OF dirs])
       (simp add: file_contents_def subtree_rebased_other [OF inc])
  moreover have "file_contents fs2 dst = file_contents fs1 src"
    by (simp add: fs2 ds(1) file_contents_append file_contents_dirs [OF dirs])
       (simp add: file_contents_def subtree_rebased [OF ne] empty)
  ultimately show ?thesis using d2 s2 keep by simp
qed

lemma copy_dir_again:
  assumes c: "copy cfg fs src dst = (None, fs2)"
    and sd: "is_dir fs src"
    and inc: "\<not> prefix src dst" "\<not> prefix dst src"
    and orphan: "node_at fs dst = None \<Longrightarrow> subtree fs dst = []"
  shows "copy cfg fs2 src dst = (None, fs2)
    \<and> (\<forall>q v. node_at fs q = Some v \<and> \<not> prefix dst q \<longrightarrow> node_at fs2 q = Some v)"
proof (cases "fs2 = fs")
  case True
  show ?thesis using c True by simp
next
  case False
  let ?fs1 = "rmtree_ignore_errors fs dst"
  from c sd False have ct: "copytree ?fs1 src dst = Inr fs2"
    by (auto simp: copy_def Let_def finish_def split: if_splits sum.splits)
  have nd: "\<not> path_exists ?fs1 dst" using ct by (auto simp: copytree_def split: if_splits)
  have empty: "subtree ?fs1 dst = []"
  proof (cases "node_at fs dst")
    case None
    then show ?thesis using orphan by (simp add: rmtree_ignore_errors_def rmtree_def)
  next
    case (Some n)
    show ?thesis
    proof (cases n)
      case (File x)
      with Some nd show ?thesis
        by (simp add: rmtree_ignore_errors_def rmtree_def path_exists_def)
    next
      case Dir
      with Some show ?thesis
        by (simp add: rmtree_ignore_errors_def rmtree_def subtree_removed)
    qed
  qed
  from copytree_result [OF ct inc empty]
  have r: "is_dir fs2 src" "is_dir fs2 dst" "file_contents fs2 dst = file_contents fs2 src"
    "\<And>q v. node_at ?fs1 q = Some v \<Longrightarrow> node_at fs2 q = Some v" by blast+
  have "copy cfg fs2 src dst = (None, fs2)"
    using r(1,2,3) by (simp add: copy_def dirhash_def path_exists_def is_dir_def)
  moreover have "node_at fs2 q = Some v" if "node_at fs q = Some v" "\<not> prefix dst q" for q v
    using that r(4) [of q v] by (simp add: node_at_rmtree_keep)
  ultimately show ?thesis by blast
qed

lemma wf_fs_ancestor_dir:
  "wf_fs fs \<Longrightarrow> (p, n) \<in> set fs \<Longrightarrow> strict_prefix q p \<Longrightarrow> is_dir fs q"
proof (induction p arbitrary: n q rule: rev_induct)
  case Nil
  then show ?case by simp
next
  case (snoc c p')
  have pd: "is_dir fs p'" using snoc.prems(1,2) by (auto simp: wf_fs_def list_all_iff)
  from snoc.prems(3) have q: "prefix q p'" by (auto simp: strict_prefix_def prefix_snoc)
  show ?case
  proof (cases "q = p'")
    case True
    with pd show ?thesis by simp
  next
    case False
    with q have sq: "strict_prefix q p'" by (simp add: strict_prefix_def)
    then have "p' \<noteq> []" by auto
    with pd have "map_of fs p' = Some Dir" by (simp add: is_dir_def node_at_def)
    then have "(p', Dir) \<in> set fs" by (rule map_of_SomeD)
    from snoc.IH [OF snoc.prems(1) this sq] show ?thesis .
  qed
qed

lemma wf_fs_ancestors_of_dir:
  assumes "wf_fs fs" "is_dir fs d" "prefix q d"
  shows "is_dir fs q"
proof (cases "q = d")
  case True
  with assms(2) show ?thesis by simp
next
  case False
  with assms(3) have s: "strict_prefix q d" by (simp add: strict_prefix_def)
  then have "d \<noteq> []" by auto
  with assms(2) have "(d, Dir) \<in> set fs" by (auto simp: is_dir_def node_at_def dest: map_of_SomeD)
  from wf_fs_ancestor_dir [OF assms(1) this s] show ?thesis .
qed

lemma FileLock_enter_on_dir:
  assumes e: "FileLock_enter cfg d w = (Inr (), w0)"
    and wf: "wf_fs (files w)" and dd: "is_dir (files w) d" and plain: "''..'' \<notin> set d"
  shows "w0 = w \<or> (node_at (files w) (d @ [''dir.lock'']) = None
            \<and> w0 = w\<lparr>files := files w @ [(d @ [''dir.lock''], File (Bytes []))]\<rparr>)"
proof (cases "posix cfg \<and> \<not> is_file (files w) (d @ [''dir.lock''])")
  case False
  show ?thesis
  proof (cases "posix cfg")
    case False
    with e show ?thesis by (simp add: FileLock_enter_def)
  next
    case True
    with \<open>\<not> (posix cfg \<and> \<not> is_file (files w) (d @ [''dir.lock'']))\<close>
    have "is_file (files w) (d @ [''dir.lock''])" by simp
    with e True have "w0 = w"
      by (cases "read_file (files w) (d @ [''dir.lock''])") (simp_all add: FileLock_enter_def Let_def)
    then show ?thesis by simp
  qed
next
  case True
  let ?l = "d @ [''dir.lock'']" and ?fs = "files w"
  have mk: "mkdir_parents ?fs [] d = Inr ?fs"
    by (rule mkdir_parents_existing) (simp add: wf_fs_ancestors_of_dir [OF wf dd])
  have wl: "walk fs' [] ?l = Inr ?l" for fs' using walk_plain [of ?l fs' "[]"] plain by simp
  have nn: "node_at ?fs ?l \<noteq> Some Dir"
  proof
    assume a: "node_at ?fs ?l = Some Dir"
    then have "write_file ?fs ?l (Bytes []) = Inl IsADirectoryError"
      using dd by (simp add: write_file_def wl is_dir_def)
    moreover have "read_file ?fs ?l = Inl IsADirectoryError" by (simp add: read_file_def wl a)
    ultimately show False using e True by (simp add: FileLock_enter_def Let_def mk)
  qed
  with True have none: "node_at ?fs ?l = None"
    by (cases "node_at ?fs ?l") (auto simp: is_file_def split: node.splits)
  then have "write_file ?fs ?l (Bytes []) = Inr (?fs @ [(?l, File (Bytes []))])"
    using dd by (simp add: write_file_def wl is_dir_def node_at_def update_absent)
  with e True none show ?thesis
    by (auto simp: FileLock_enter_def Let_def mk split: sum.splits)
qed

lemma FileLock_enter_lock_file:
  assumes "FileLock_enter cfg d w = (Inr (), w0)" "posix cfg" "''..'' \<notin> set d"
  shows "\<exists>c. node_at (files w0) (d @ [''dir.lock'']) = Some (File c)"
proof -
  have wl: "walk fs' [] (d @ [''dir.lock'']) = Inr (d @ [''dir.lock''])" for fs'
    using walk_plain [of "d @ [''dir.lock'']" fs' "[]"] assms(3) by simp
  from assms(1,2) obtain c where "read_file (files w0) (d @ [''dir.lock'']) = Inr c"
    by (auto simp: FileLock_enter_def Let_def split: sum.splits)
  then show ?thesis
    by (auto simp: read_file_def wl split: option.splits node.splits)
qed

lemma FileLock_enter_held:
  assumes "node_at (files w) (d @ [''dir.lock'']) = Some (File c)" "''..'' \<notin> set d"
  shows "FileLock_enter cfg d w = (Inr (), w)"
proof -
  have wl: "walk (files w) [] (d @ [''dir.lock'']) = Inr (d @ [''dir.lock''])"
    using walk_plain [of "d @ [''dir.lock'']" "files w" "[]"] assms(2) by simp
  have "is_file (files w) (d @ [''dir.lock''])" using assms(1) by (simp add: is_file_def)
  moreover have "read_file (files w) (d @ [''dir.lock'']) = Inr c"
    using assms(1) by (simp add: read_file_def wl)
  ultimately show ?thesis by (simp add: FileLock_enter_def Let_def)
qed

lemma push_again:
  assumes loc: "location cfg = Local" and wf: "wf_fs (files w)"
    and dd: "is_dir (files w) (folder_path st)" and plain: "''..'' \<notin> set (folder_path st)"
    and inc: "\<not> prefix (folder_path st) (storage cfg @ [folder_name st])"
             "\<not> prefix (storage cfg @ [folder_name st]) (folder_path st)"
    and first: "push cfg st w = (Inr (), w1)"
  shows "push cfg st w1 = (Inr (), w1)"
proof -
  let ?src = "folder_path st" and ?dst = "storage cfg @ [folder_name st]"
  let ?l = "folder_path st @ [''dir.lock'']"
  have src: "resource_group_path st @ [folder_name st] = ?src" by (simp add: folder_path_def)
  obtain r w0 where e: "FileLock_enter cfg ?src w = (r, w0)" by (cases "FileLock_enter cfg ?src w")
  with first have r: "r = Inr ()" by (cases r) (simp_all add: push_def with_FileLock_def)
  from first e r have put: "LocalFSStore_put cfg [folder_name st] (resource_group_path st) w0 = (Inr (), w1)"
    by (simp add: push_def with_FileLock_def push_no_lock_def fs_store_put_def loc)
  obtain eo fs2 where c0: "copy cfg (files w0) ?src ?dst = (eo, fs2)"
    by (cases "copy cfg (files w0) ?src ?dst")
  with put have c: "copy cfg (files w0) ?src ?dst = (None, fs2)" and w1: "w1 = w0\<lparr>files := fs2\<rparr>"
    by (cases eo; simp add: LocalFSStore_put_def lift_fs_def src)+
  have nl: "\<not> prefix ?dst ?l" using inc by (auto simp: prefix_snoc)
  from FileLock_enter_on_dir [OF e [unfolded r] wf dd plain]
  obtain ex where ex: "files w0 = files w @ ex" "ex = [] \<or> ex = [(?l, File (Bytes []))]"
    by auto
  have d0: "is_dir (files w0) ?src" using dd by (simp add: ex(1) is_dir_def node_at_append_keep)
  have orphan: "subtree (files w0) ?dst = []" if n: "node_at (files w0) ?dst = None"
  proof -
    have "node_at (files w) ?dst = None"
    proof (rule ccontr)
      assume "node_at (files w) ?dst \<noteq> None"
      then obtain v where "node_at (files w) ?dst = Some v" by auto
      then have "node_at (files w0) ?dst = Some v" by (simp add: ex(1) node_at_append_keep)
      with n show False by simp
    qed
    then have "subtree (files w) ?dst = []" by (rule wf_fs_no_orphans [OF wf])
    moreover have "subtree ex ?dst = []"
      using ex(2) nl by (auto simp: subtree_def strict_prefix_def)
    ultimately show ?thesis by (simp add: ex(1) subtree_append)
  qed
  from copy_dir_again [OF c d0 inc orphan]
  have again: "copy cfg fs2 ?src ?dst = (None, fs2)"
    and keep: "\<And>q v. node_at (files w0) q = Some v \<Longrightarrow> \<not> prefix ?dst q \<Longrightarrow> node_at fs2 q = Some v"
    by blast+
  have lock2: "FileLock_enter cfg ?src w1 = (Inr (), w1)"
  proof (cases "posix cfg")
    case False
    then show ?thesis by (simp add: FileLock_enter_def)
  next
    case True
    from FileLock_enter_lock_file [OF e [unfolded r] True plain]
    obtain c where "node_at (files w0) ?l = Some (File c)" by blast
    from keep [OF this nl] have "node_at (files w1) ?l = Some (File c)" by (simp add: w1)
    then show ?thesis using plain by (rule FileLock_enter_held)
  qed
  have "LocalFSStore_put cfg [folder_name st] (resource_group_path st) w1 = (Inr (), w1)"
    using again by (simp add: LocalFSStore_put_def lift_fs_def src w1)
  then show ?thesis
    by (simp add: push_def with_FileLock_def lock2 push_no_lock_def fs_store_put_def loc)
qed

subsection \<open>Writing a file and reading it back\<close>































subsection \<open>The archive loop and the fresh cache\<close>

text \<open>
  The loop of the in-memory branch records every name of the listing it is given, and a
  \<open>get\<close> whose marker equals the remote timestamp asks for the attributes and does
  nothing else.
\<close>

lemma tar_add_records_name: "tar_add fs cwd0 name = Inr es \<Longrightarrow> name \<in> fst ` set es"
  by (auto simp: tar_add_def split: option.splits node.splits)

lemma add_listing_keeps_every_name:
  "add_listing fs cwd0 names = Inr es \<Longrightarrow> name \<in> set names \<Longrightarrow> [name] \<in> fst ` set es"
proof (induction names arbitrary: es)
  case Nil
  then show ?case by simp
next
  case (Cons n ns)
  from Cons.prems(1) obtain a b where a: "tar_add fs cwd0 [n] = Inr a"
    and b: "add_listing fs cwd0 ns = Inr b" and es: "es = a @ b"
    by (auto split: sum.splits)
  show ?case
  proof (cases "name = n")
    case True
    with tar_add_records_name [OF a] es show ?thesis by auto
  next
    case False
    with Cons.prems(2) have "name \<in> set ns" by simp
    from Cons.IH [OF b this] es show ?thesis by auto
  qed
qed

lemma S3FSStore_get_fresh_no_download:
  assumes m: "node_at (files w) (b @ n @ [''last_modified.txt'']) = Some (File (Bytes (strftime cfg t)))"
    and o: "map_of (bucket w) (zipped_name n) = Some (x, t)"
    and rt: "strptime cfg (strftime cfg t) = Some t"
    and ok: "\<not> s3_fails cfg (GetObjectAttributes (zipped_name n))"
    and plain: "''..'' \<notin> set (b @ n)" and pure: "pure_path (b @ n) = b @ n"
  shows "S3FSStore_get cfg n b w = (Inr (), w\<lparr>calls := calls w @ [GetObjectAttributes (zipped_name n)]\<rparr>)"
proof -
  let ?m = "b @ n @ [''last_modified.txt'']"
  have pm: "pure_path ?m = ?m" using pure by (simp add: pure_path_def)
  have plm: "''..'' \<notin> set ?m" using plain by simp
  have wl: "walk (files w) [] ?m = Inr ?m" using walk_plain [OF plm, of "files w" "[]"] by simp
  have l: "S3FSStore_get_local_last_modified cfg b n w = Inr (Some t)"
    using m rt by (simp add: S3FSStore_get_local_last_modified_def pm Let_def os_is_file_def wl
        is_file_def read_file_def)
  show ?thesis using o ok
    by (simp add: S3FSStore_get_def l S3FSStore_get_remote_last_modified_def
        get_object_attributes_def log_call_def Let_def)
qed

section \<open>Full removal and the remote object\<close>

text \<open>
  Claim C3: after \<open>delete()\<close> on the resource root both the local directory and the remote
  archive object are absent. On the remote store the archive of \<open>g_1_7\<close> lives under the
  key \<open>g_1_7.tar.gz\<close> (the key \<open>put\<close> and \<open>get\<close> use), while the removal asks the store to
  delete the key \<open>g_1_7\<close>: the call returns normally, the local directory is gone, and the
  archive object is still in the bucket.
\<close>

theorem delete_root_leaves_remote_archive:
  "(case delete (example_config S3 0) (example_storage False) (Rel [''.'']) example_world of
      (r, w') \<Rightarrow>
        r = Inr () \<and> \<not> path_exists (files w') [''c'', ''g'', ''g_1_7'']
        \<and> calls w' = [DeleteObject [''g_1_7'']]
        \<and> map_of (bucket w') [''g_1_7.tar.gz''] = Some (Gztar [], 3))"
  by code_simp

section \<open>Parent components in relative paths\<close>

text \<open>
  Claim C10: \<open>delete\<close> and \<open>get_path\<close> only reject absolute paths. The relative path
  \<open>../v\<close> resolves to \<open>/c/g/v\<close>, outside the resource directory \<open>/c/g/g_1_7\<close>, and
  \<open>delete\<close> removes the file there; \<open>get_path\<close> on \<open>../out\<close> creates the directory
  \<open>/c/g/out\<close>, which did not exist before.
\<close>

theorem parent_components_leave_resource_directory:
  "\<not> is_absolute (Rel [''..'', ''v''])
   \<and> \<not> prefix (folder_path (example_storage False))
         (resolve (joinpath (folder_path (example_storage False)) (Rel [''..'', ''v''])))
   \<and> is_file (files example_world) [''c'', ''g'', ''v'']
   \<and> (case delete (example_config S3 0) (example_storage False) (Rel [''..'', ''v'']) example_world of
         (r, w') \<Rightarrow> r = Inr () \<and> \<not> path_exists (files w') [''c'', ''g'', ''v''])
   \<and> \<not> path_exists (files example_world) [''c'', ''g'', ''out'']
   \<and> (case get_path (example_config S3 0) (example_storage False) (Rel [''..'', ''out''])
              example_world of
         (r, w') \<Rightarrow> r = Inr [''c'', ''g'', ''g_1_7'', ''..'', ''out'']
                    \<and> is_dir (files w') [''c'', ''g'', ''out''])"
  by code_simp

section \<open>The archive that put uploads\<close>

text \<open>
  Claim C1: the uploaded archive holds the directory's contents with paths relative to the
  resource directory and never holds \<open>dir.lock\<close> or \<open>last_modified.txt\<close>. With no memory
  to spare \<open>put\<close> takes the on-disk branch, and the object it uploads records the lock file,
  under a path that starts with the folder name.
\<close>

theorem put_uploads_lock_file:
  "(case S3FSStore_put (example_config S3 0) [''g_1_7''] [''c'', ''g''] example_world of
      (r, w') \<Rightarrow>
        r = Inr ()
        \<and> map_of (bucket w') [''g_1_7.tar.gz'']
            = Some (Gztar [([''g_1_7''], Dir),
                           ([''g_1_7'', ''dir.lock''], File (Bytes [])),
                           ([''g_1_7'', ''m''], File (Bytes ''ab''))], 4))"
  by code_simp

text \<open>
  Claim C2: both ways of building the archive lead to the same unpacked tree. On the same
  directory the on-disk branch uploads the tree, and the in-memory branch, which looks
  each listed name up in the parent of the resource directory, stops at the first name
  with \<open>FileNotFoundError\<close>: nothing is uploaded and the working directory stays changed.
\<close>

theorem put_branches_differ:
  "in_memory_branch (example_config S3 5) [''g_1_7''] [''c'', ''g''] example_world
   \<and> \<not> in_memory_branch (example_config S3 4) [''g_1_7''] [''c'', ''g''] example_world
   \<and> S3FSStore_put (example_config S3 5) [''g_1_7''] [''c'', ''g''] example_world
       = (Inl FileNotFoundError, example_world\<lparr>cwd := [''c'', ''g'']\<rparr>)
   \<and> (case S3FSStore_put (example_config S3 4) [''g_1_7''] [''c'', ''g''] example_world of
         (r, w') \<Rightarrow> r = Inr () \<and> UploadFile [''g_1_7.tar.gz''] \<in> set (calls w')
                    \<and> bucket w' \<noteq> bucket example_world)"
  by code_simp

section \<open>The staleness check of get\<close>

text \<open>
  Claim C8: when the marker is absent or differs, \<open>get\<close> downloads, unpacks, deletes the
  downloaded file and writes the remote timestamp into the marker. On a directory without
  a marker the first three happen; the marker is then written below the name
  \<open>'g_1_7.tar.gz'.replace('tar.gz', '')\<close>, which is \<open>g_1_7.\<close>, a directory that does not
  exist, so the call ends in \<open>FileNotFoundError\<close> and the resource has no marker.
\<close>

theorem get_writes_no_marker:
  "map (str_replace ''tar.gz'' []) (zipped_name [''g_1_7'']) = [''g_1_7.'']
   \<and> (case S3FSStore_get (example_config S3 0) [''g_1_7''] [''c'', ''g''] example_world of
         (r, w') \<Rightarrow>
           r = Inl FileNotFoundError
           \<and> calls w' = [GetObjectAttributes [''g_1_7.tar.gz''], DownloadFile [''g_1_7.tar.gz'']]
           \<and> \<not> path_exists (files w') [''c'', ''g'', ''g_1_7.tar.gz'']
           \<and> \<not> path_exists (files w') [''c'', ''g'', ''g_1_7'', ''last_modified.txt''])"
  by code_simp

section \<open>Reuse after full removal\<close>

text \<open>
  Claim C4, as stated: after the full removal every further operation on the instance
  fails and nothing is created again. The instance keeps no record of the removal: on
  the emptied tree \<open>get_path\<close> and \<open>file_set\<close> return normally, and the resource directory,
  its lock file and the requested sub-path exist again.
\<close>

theorem reuse_after_removal_succeeds:
  "(case delete (example_config S3 0) (example_storage False) (Rel [''.'']) example_world of
      (r, w1) \<Rightarrow>
        r = Inr () \<and> \<not> path_exists (files w1) [''c'', ''g'', ''g_1_7'']
        \<and> (case get_path (example_config S3 0) (example_storage False) (Rel [''sub'']) w1 of
              (r2, w2) \<Rightarrow>
                r2 = Inr [''c'', ''g'', ''g_1_7'', ''sub'']
                \<and> is_dir (files w2) [''c'', ''g'', ''g_1_7'']
                \<and> is_file (files w2) [''c'', ''g'', ''g_1_7'', ''dir.lock'']
                \<and> is_dir (files w2) [''c'', ''g'', ''g_1_7'', ''sub''])
        \<and> (case file_set (example_config S3 0) (example_storage False) (Rel [''m'']) (Bytes ''z'') w1 of
              (r2, w2) \<Rightarrow>
                r2 = Inr () \<and> is_file (files w2) [''c'', ''g'', ''g_1_7'', ''m'']))"
  by code_simp

text \<open>
  Claim C4, amended: after a full removal that returned normally the resource directory
  is absent, and the lock acquisition that starts every further operation succeeds and
  creates the resource directory and its lock file again (on a posix platform, with the
  directory of the resource group still in place).
\<close>

theorem lock_recreates_after_removal:
  assumes px: "posix cfg" and plain: "''..'' \<notin> set (folder_path st)"
    and del: "delete cfg st (Rel [''.'']) w = (Inr (), w1)"
    and anc: "ancestors_are_dirs (files w1) (resource_group_path st)"
  shows "\<not> path_exists (files w1) (folder_path st)
    \<and> (\<exists>w2. FileLock_enter cfg (folder_path st) w1 = (Inr (), w2)
          \<and> is_dir (files w2) (folder_path st)
          \<and> is_file (files w2) (folder_path st @ [''dir.lock'']))"
proof -
  let ?d = "folder_path st" and ?l = "folder_path st @ [''dir.lock'']"
  let ?fs1 = "files w1 @ [(?d, Dir)]"
  obtain fs where f: "files w1 = filter (\<lambda>(q, n). \<not> prefix ?d q) fs"
    using delete_root_files [OF del] by blast
  have dne: "?d \<noteq> []" by (simp add: folder_path_def)
  have nd: "node_at (files w1) ?d = None" using removed_absent [OF f, of ?d] dne by simp
  have nl: "node_at (files w1) ?l = None" using removed_absent [OF f, of ?l] by simp
  have mk: "mkdir_parents (files w1) [] ?d = Inr ?fs1"
  proof -
    have "mkdir_parents (files w1) [] (resource_group_path st @ [folder_name st])
          = Inr (files w1 @ [([] @ resource_group_path st @ [folder_name st], Dir)])"
    proof (rule mkdir_parents_new)
      fix q assume "prefix q (resource_group_path st)"
      then show "is_dir (files w1) ([] @ q)"
        using anc by (simp add: ancestors_are_dirs_def list_all_iff in_set_prefixes)
    next
      show "node_at (files w1) ([] @ resource_group_path st @ [folder_name st]) = None"
        using nd by (simp add: folder_path_def)
    qed
    then show ?thesis by (simp add: folder_path_def)
  qed
  have wl: "walk ?fs1 [] ?l = Inr ?l" using walk_plain [of ?l ?fs1 "[]"] plain by simp
  have n1d: "node_at ?fs1 ?d = Some Dir" using node_at_append_new [OF nd, of Dir ?d] by simp
  have n1l: "node_at ?fs1 ?l = None" using node_at_append_new [OF nd, of Dir ?l] nl by simp
  let ?fs2 = "AList.update ?l (File (Bytes [])) ?fs1"
  have wr: "write_file ?fs1 ?l (Bytes []) = Inr ?fs2"
    by (simp add: write_file_def wl n1d n1l)
  have n2l: "node_at ?fs2 ?l = Some (File (Bytes []))" by (simp add: node_at_update)
  have n2d: "node_at ?fs2 ?d = Some Dir" using n1d by (simp add: node_at_update)
  have wl2: "walk ?fs2 [] ?l = Inr ?l" using walk_plain [of ?l ?fs2 "[]"] plain by simp
  have rd: "read_file ?fs2 ?l = Inr (Bytes [])" by (simp add: read_file_def wl2 n2l)
  have nf: "\<not> is_file (files w1) ?l" by (simp add: is_file_def nl)
  have "FileLock_enter cfg ?d w1 = (Inr (), w1\<lparr>files := ?fs2\<rparr>)"
    using px by (simp add: FileLock_enter_def Let_def nf mk wr rd)
  moreover have "is_dir ?fs2 ?d" by (simp add: is_dir_def n2d)
  moreover have "is_file ?fs2 ?l" by (simp add: is_file_def n2l)
  moreover have "\<not> path_exists (files w1) ?d" by (simp add: path_exists_def nd)
  ultimately show ?thesis by simp
qed


theorem lock_recreates_after_removal_witness:
  "posix (example_config S3 0)
   \<and> ''..'' \<notin> set (folder_path (example_storage False))
   \<and> ancestors_are_dirs
        (files (snd (delete (example_config S3 0) (example_storage False) (Rel [''.'']) example_world)))
        (resource_group_path (example_storage False))
   \<and> (\<exists>w2. FileLock_enter (example_config S3 0) (folder_path (example_storage False))
              (snd (delete (example_config S3 0) (example_storage False) (Rel [''.'']) example_world))
            = (Inr (), w2)
          \<and> is_dir (files w2) (folder_path (example_storage False))
          \<and> is_file (files w2) (folder_path (example_storage False) @ [''dir.lock'']))"
proof -
  let ?w1 = "snd (delete (example_config S3 0) (example_storage False) (Rel [''.'']) example_world)"
  have a: "posix (example_config S3 0)" by code_simp
  have b: "''..'' \<notin> set (folder_path (example_storage False))" by code_simp
  have c: "delete (example_config S3 0) (example_storage False) (Rel [''.'']) example_world
            = (Inr (), ?w1)" by code_simp
  have d: "ancestors_are_dirs (files ?w1) (resource_group_path (example_storage False))"
    by code_simp
  show ?thesis using a b d lock_recreates_after_removal [OF a b c d] by simp
qed

section \<open>Absolute paths\<close>

text \<open>
  Claim C5, as stated: a call rejected for an absolute path has no filesystem side
  effect. On an instance that was just constructed both \<open>get_path\<close> and \<open>delete\<close> raise
  \<open>TypeError\<close>, and by then the lock acquisition has created the lock file.
\<close>

theorem absolute_path_side_effect:
  "(case FileStorage_init ''g'' ''1'' ''7'' [''c''] False empty_world of
      (r, w) \<Rightarrow>
        r = Inr (example_storage False)
        \<and> \<not> path_exists (files w) [''c'', ''g'', ''g_1_7'', ''dir.lock'']
        \<and> (case get_path (example_config S3 0) (example_storage False) (Abs [''etc'', ''passwd'']) w of
              (r', w') \<Rightarrow> r' = Inl TypeError \<and> files w' \<noteq> files w
                  \<and> is_file (files w') [''c'', ''g'', ''g_1_7'', ''dir.lock''])
        \<and> (case delete (example_config S3 0) (example_storage False) (Abs [''abs'', ''path'']) w of
              (r', w') \<Rightarrow> r' = Inl TypeError \<and> files w' \<noteq> files w
                  \<and> is_file (files w') [''c'', ''g'', ''g_1_7'', ''dir.lock'']))"
  by code_simp

text \<open>
  Claim C5, amended: for every absolute path, once the lock is acquired \<open>delete\<close> and
  \<open>get_path\<close> raise \<open>TypeError\<close>. The test comes after the lock acquisition and, in
  \<open>get_path\<close>, after the pull of the synchronised mode: \<open>delete\<close> leaves the state the
  acquisition produced, \<open>get_path\<close> the state its pull produced from it. The acquisition
  never touches the remote store, and changes nothing where the lock file exists.
\<close>

theorem absolute_path_rejected_after_lock:
  assumes "fst (FileLock_enter cfg (folder_path st) w) = Inr ()"
  shows "delete cfg st (Abs p) w = (Inl TypeError, snd (FileLock_enter cfg (folder_path st) w))
    \<and> get_path cfg st (Abs p) w
        = (Inl TypeError, sync_pull cfg st (snd (FileLock_enter cfg (folder_path st) w)))
    \<and> bucket (snd (FileLock_enter cfg (folder_path st) w)) = bucket w
    \<and> calls (snd (FileLock_enter cfg (folder_path st) w)) = calls w
    \<and> (is_file (files w) (folder_path st @ [''dir.lock''])
         \<longrightarrow> snd (FileLock_enter cfg (folder_path st) w) = w)"
proof -
  obtain w1 where e: "FileLock_enter cfg (folder_path st) w = (Inr (), w1)"
    using assms by (cases "FileLock_enter cfg (folder_path st) w") auto
  have d: "delete cfg st (Abs p) w = (Inl TypeError, w1)"
    by (simp add: delete_def with_FileLock_def e)
  have g: "get_path cfg st (Abs p) w = (Inl TypeError, sync_pull cfg st w1)"
    by (simp add: get_path_def with_FileLock_def e Let_def)
  show ?thesis
    using d g e FileLock_enter_keeps_remote [of cfg "folder_path st" w]
      FileLock_enter_present [of w "folder_path st" cfg] by simp
qed

theorem absolute_path_rejected_after_lock_witness:
  "fst (FileLock_enter (example_config S3 0) (folder_path (example_storage False)) example_world) = Inr ()
   \<and> delete (example_config S3 0) (example_storage False) (Abs [''abs'', ''path'']) example_world
       = (Inl TypeError, example_world)
   \<and> get_path (example_config S3 0) (example_storage False) (Abs [''etc'', ''passwd'']) example_world
       = (Inl TypeError, example_world)"
proof -
  have h: "fst (FileLock_enter (example_config S3 0) (folder_path (example_storage False)) example_world) = Inr ()"
    by code_simp
  have l: "is_file (files example_world) (folder_path (example_storage False) @ [''dir.lock''])"
    by code_simp
  have s: "sync_pull (example_config S3 0) (example_storage False) example_world = example_world"
    by (simp add: sync_pull_def example_storage_def)
  show ?thesis
    using h l s absolute_path_rejected_after_lock [OF h, of "[''abs'', ''path'']"]
      absolute_path_rejected_after_lock [OF h, of "[''etc'', ''passwd'']"]
    by simp
qed


section \<open>Errors of the backing store during a pull\<close>

text \<open>
  Claim C6, as stated: for every error of the backing store \<open>pull\<close> returns normally and
  the local state is the one that existed before. The first half holds; the second does
  not, since an error that comes after the download is swallowed like any other. With an
  archive holding \<open>m = 'new'\<close> in the bucket, \<open>get\<close> unpacks it and then fails on the
  marker; with an object that is no archive, it fails while unpacking and the downloaded
  file stays. Both times \<open>pull\<close> returns normally and the local files have changed.
\<close>

theorem swallowed_error_leaves_changed_files:
  "read_file (files example_world) [''c'', ''g'', ''g_1_7'', ''m''] = Inr (Bytes ''ab'')
   \<and> fst (S3FSStore_get (example_config S3 0) [''g_1_7''] [''c'', ''g'']
          (example_world\<lparr>bucket :=
             [([''g_1_7.tar.gz''], (Gztar [([''g_1_7'', ''m''], File (Bytes ''new''))], 3))]\<rparr>))
       = Inl FileNotFoundError
   \<and> (case pull (example_config S3 0) (example_storage True)
              (example_world\<lparr>bucket :=
                 [([''g_1_7.tar.gz''], (Gztar [([''g_1_7'', ''m''], File (Bytes ''new''))], 3))]\<rparr>) of
         (r, w') \<Rightarrow>
           r = Inr () \<and> files w' \<noteq> files example_world
           \<and> read_file (files w') [''c'', ''g'', ''g_1_7'', ''m''] = Inr (Bytes ''new''))
   \<and> fst (S3FSStore_get (example_config S3 0) [''g_1_7''] [''c'', ''g'']
          (example_world\<lparr>bucket := [([''g_1_7.tar.gz''], (Bytes [], 3))]\<rparr>))
       = Inl ReadError
   \<and> \<not> path_exists (files example_world) [''c'', ''g'', ''g_1_7.tar.gz'']
   \<and> (case pull (example_config S3 0) (example_storage True)
              (example_world\<lparr>bucket := [([''g_1_7.tar.gz''], (Bytes [], 3))]\<rparr>) of
         (r, w') \<Rightarrow>
           r = Inr () \<and> files w' \<noteq> files example_world
           \<and> is_file (files w') [''c'', ''g'', ''g_1_7.tar.gz''])"
  by code_simp

text \<open>
  Claim C6, amended: \<open>pull\<close> and \<open>pull_path\<close> never hand a failure of the backing store
  to the caller. Once the lock is acquired they return normally, whatever the store's
  \<open>get\<close> does, and the state they leave is the state \<open>get\<close> had reached when it stopped.
  That state has the files that were there after the lock acquisition whenever the
  failure comes before any write: the remote object does not exist, the query for its
  attributes or its download fails, or the local store holds no copy.
\<close>

theorem pull_swallows_store_errors:
  assumes "FileLock_enter cfg (folder_path st) w = (Inr (), w0)"
  shows "pull cfg st w = (Inr (), snd (fs_store_get cfg [folder_name st] (resource_group_path st) w0))
    \<and> pull_path cfg st p u w
        = (Inr (), if \<not> u \<and> os_exists (files w0) (folder_path st @ pure_path p) then w0
                   else snd (fs_store_get cfg (folder_name st # p) (resource_group_path st) w0))
    \<and> (fails_before_writing cfg [folder_name st] (resource_group_path st) w0
          \<longrightarrow> files (snd (pull cfg st w)) = files w0)
    \<and> (fails_before_writing cfg (folder_name st # p) (resource_group_path st) w0
          \<longrightarrow> files (snd (pull_path cfg st p u w)) = files w0)"
  using pull_state [OF assms] pull_path_state [OF assms, of p u]
    fs_store_get_fails_before_writing [of cfg "[folder_name st]" "resource_group_path st" w0]
    fs_store_get_fails_before_writing [of cfg "folder_name st # p" "resource_group_path st" w0]
  by simp

theorem pull_swallows_store_errors_witness:
  "FileLock_enter (example_config S3 0) (folder_path (example_storage True)) empty_world
     = (Inr (), snd (FileLock_enter (example_config S3 0) (folder_path (example_storage True)) empty_world))
   \<and> fst (pull (example_config S3 0) (example_storage True) empty_world) = Inr ()
   \<and> fst (pull_path (example_config S3 0) (example_storage True) [''m''] True empty_world) = Inr ()
   \<and> files (snd (pull (example_config S3 0) (example_storage True) empty_world))
       = files (snd (FileLock_enter (example_config S3 0) (folder_path (example_storage True)) empty_world))
   \<and> files (snd (pull_path (example_config S3 0) (example_storage True) [''m''] True empty_world))
       = files (snd (FileLock_enter (example_config S3 0) (folder_path (example_storage True)) empty_world))
   \<and> pull ((example_config S3 0)\<lparr>s3_fails := (\<lambda>c. c = DownloadFile [''g_1_7.tar.gz''])\<rparr>)
          (example_storage True) example_world
       = (Inr (), example_world\<lparr>calls := [GetObjectAttributes [''g_1_7.tar.gz''],
                                             DownloadFile [''g_1_7.tar.gz'']]\<rparr>)
   \<and> files (snd (pull (example_config Local 0) (example_storage True) example_world))
       = files example_world"
proof -
  let ?s = "example_storage True"
  let ?a = "example_config S3 0" and ?l = "example_config Local 0"
  let ?d = "(example_config S3 0)\<lparr>s3_fails := (\<lambda>c. c = DownloadFile [''g_1_7.tar.gz''])\<rparr>"
  let ?w0 = "snd (FileLock_enter ?a (folder_path ?s) empty_world)"
  have a1: "FileLock_enter ?a (folder_path ?s) empty_world = (Inr (), ?w0)" by code_simp
  have a2: "fails_before_writing ?a [folder_name ?s] (resource_group_path ?s) ?w0" by code_simp
  have a3: "fails_before_writing ?a (folder_name ?s # [''m'']) (resource_group_path ?s) ?w0"
    by code_simp
  have d1: "FileLock_enter ?d (folder_path ?s) example_world = (Inr (), example_world)" by code_simp
  have d2: "fails_before_writing ?d [folder_name ?s] (resource_group_path ?s) example_world"
    by code_simp
  have d3: "snd (fs_store_get ?d [folder_name ?s] (resource_group_path ?s) example_world)
      = example_world\<lparr>calls := [GetObjectAttributes [''g_1_7.tar.gz''], DownloadFile [''g_1_7.tar.gz'']]\<rparr>"
    by code_simp
  have l1: "FileLock_enter ?l (folder_path ?s) example_world = (Inr (), example_world)" by code_simp
  have l2: "fails_before_writing ?l [folder_name ?s] (resource_group_path ?s) example_world"
    by code_simp
  note A = pull_swallows_store_errors [OF a1, of "[''m'']" True]
  note D = pull_swallows_store_errors [OF d1, of "[]" True]
  note L = pull_swallows_store_errors [OF l1, of "[]" True]
  have c1: "pull ?a ?s empty_world
      = (Inr (), snd (fs_store_get ?a [folder_name ?s] (resource_group_path ?s) ?w0))"
    using A by blast
  have c2: "fst (pull ?a ?s empty_world) = Inr ()" by (simp add: c1)
  have c3: "fst (pull_path ?a ?s [''m''] True empty_world) = Inr ()"
    using conjunct1 [OF conjunct2 [OF A]] by simp
  have c4: "files (snd (pull ?a ?s empty_world)) = files ?w0" using A a2 by blast
  have c5: "files (snd (pull_path ?a ?s [''m''] True empty_world)) = files ?w0" using A a3 by blast
  have c6: "pull ?d ?s example_world
      = (Inr (), snd (fs_store_get ?d [folder_name ?s] (resource_group_path ?s) example_world))"
    using D by blast
  have c7: "pull ?d ?s example_world
      = (Inr (), example_world\<lparr>calls := [GetObjectAttributes [''g_1_7.tar.gz''],
                                            DownloadFile [''g_1_7.tar.gz'']]\<rparr>)"
    by (simp only: c6 d3)
  have c8: "files (snd (pull ?l ?s example_world)) = files example_world" using L l2 by blast
  show ?thesis using a1 d2 c2 c3 c4 c5 c7 c8 by blast
qed

section \<open>The local store's put\<close>

text \<open>
  Claim C9: the local store's \<open>put\<close> compares hashes before it overwrites, the directory
  hash for a directory and the file hash for a file, and leaves everything as it is when
  they agree; so a second \<open>push\<close> right after a first one writes nothing. The second
  part is for a well-formed tree in which the resource directory exists and neither it
  nor its copy in the store lies inside the other.
\<close>

theorem local_put_skips_identical_content:
  "(is_dir (files w) (b @ n) \<and> is_dir (files w) (storage cfg @ n)
      \<and> dirhash cfg (files w) (b @ n) = dirhash cfg (files w) (storage cfg @ n)
      \<longrightarrow> LocalFSStore_put cfg n b w = (Inr (), w))
   \<and> (\<not> is_dir (files w) (b @ n) \<and> path_exists (files w) (storage cfg @ n)
      \<and> read_file (files w) (b @ n) = Inr c \<and> read_file (files w) (storage cfg @ n) = Inr c'
      \<and> md5 cfg c = md5 cfg c'
      \<longrightarrow> LocalFSStore_put cfg n b w = (Inr (), w))
   \<and> (location cfg = Local \<and> wf_fs (files w) \<and> is_dir (files w) (folder_path st)
      \<and> ''..'' \<notin> set (folder_path st)
      \<and> \<not> prefix (folder_path st) (storage cfg @ [folder_name st])
      \<and> \<not> prefix (storage cfg @ [folder_name st]) (folder_path st)
      \<and> push cfg st w = (Inr (), w1)
      \<longrightarrow> push cfg st w1 = (Inr (), w1))"
proof (intro conjI impI)
  assume "is_dir (files w) (b @ n) \<and> is_dir (files w) (storage cfg @ n)
      \<and> dirhash cfg (files w) (b @ n) = dirhash cfg (files w) (storage cfg @ n)"
  then show "LocalFSStore_put cfg n b w = (Inr (), w)"
    by (auto simp: LocalFSStore_put_def copy_def lift_fs_def path_exists_def is_dir_def dirhash_def)
next
  assume "\<not> is_dir (files w) (b @ n) \<and> path_exists (files w) (storage cfg @ n)
      \<and> read_file (files w) (b @ n) = Inr c \<and> read_file (files w) (storage cfg @ n) = Inr c'
      \<and> md5 cfg c = md5 cfg c'"
  then show "LocalFSStore_put cfg n b w = (Inr (), w)"
    by (simp add: LocalFSStore_put_def copy_def lift_fs_def)
next
  assume "location cfg = Local \<and> wf_fs (files w) \<and> is_dir (files w) (folder_path st)
      \<and> ''..'' \<notin> set (folder_path st)
      \<and> \<not> prefix (folder_path st) (storage cfg @ [folder_name st])
      \<and> \<not> prefix (storage cfg @ [folder_name st]) (folder_path st)
      \<and> push cfg st w = (Inr (), w1)"
  then show "push cfg st w1 = (Inr (), w1)" using push_again by blast
qed

theorem local_put_skips_identical_content_witness:
  "push (example_config Local 0) (example_storage False) example_world
     = (Inr (), snd (push (example_config Local 0) (example_storage False) example_world))
   \<and> push (example_config Local 0) (example_storage False)
        (snd (push (example_config Local 0) (example_storage False) example_world))
     = (Inr (), snd (push (example_config Local 0) (example_storage False) example_world))
   \<and> is_dir (files (snd (push (example_config Local 0) (example_storage False) example_world)))
        [''s'', ''g_1_7'']
   \<and> LocalFSStore_put (example_config Local 0) [''g_1_7''] [''c'', ''g'']
        (snd (push (example_config Local 0) (example_storage False) example_world))
     = (Inr (), snd (push (example_config Local 0) (example_storage False) example_world))
   \<and> LocalFSStore_put (example_config Local 0) [''g_1_7'', ''m''] [''c'', ''g'']
        (snd (push (example_config Local 0) (example_storage False) example_world))
     = (Inr (), snd (push (example_config Local 0) (example_storage False) example_world))"
proof -
  let ?c = "example_config Local 0" and ?s = "example_storage False"
  let ?w1 = "snd (push (example_config Local 0) (example_storage False) example_world)"
  have a: "location ?c = Local \<and> wf_fs (files example_world) \<and> is_dir (files example_world) (folder_path ?s)
      \<and> ''..'' \<notin> set (folder_path ?s)
      \<and> \<not> prefix (folder_path ?s) (storage ?c @ [folder_name ?s])
      \<and> \<not> prefix (storage ?c @ [folder_name ?s]) (folder_path ?s)
      \<and> push ?c ?s example_world = (Inr (), ?w1)"
    by code_simp
  have b: "is_dir (files ?w1) ([''c'', ''g''] @ [''g_1_7'']) \<and> is_dir (files ?w1) (storage ?c @ [''g_1_7''])
      \<and> dirhash ?c (files ?w1) ([''c'', ''g''] @ [''g_1_7'']) = dirhash ?c (files ?w1) (storage ?c @ [''g_1_7''])"
    by code_simp
  have c: "\<not> is_dir (files ?w1) ([''c'', ''g''] @ [''g_1_7'', ''m''])
      \<and> path_exists (files ?w1) (storage ?c @ [''g_1_7'', ''m''])
      \<and> read_file (files ?w1) ([''c'', ''g''] @ [''g_1_7'', ''m'']) = Inr (Bytes ''ab'')
      \<and> read_file (files ?w1) (storage ?c @ [''g_1_7'', ''m'']) = Inr (Bytes ''ab'')
      \<and> md5 ?c (Bytes ''ab'') = md5 ?c (Bytes ''ab'')"
    by code_simp
  have d: "is_dir (files ?w1) [''s'', ''g_1_7'']" by code_simp
  show ?thesis
    using a b c d
      local_put_skips_identical_content [of ?w1 "[''c'', ''g'']" "[''g_1_7'']" ?c "Bytes ''ab''" "Bytes ''ab''" ?s ?w1]
      local_put_skips_identical_content [of ?w1 "[''c'', ''g'']" "[''g_1_7'', ''m'']" ?c "Bytes ''ab''" "Bytes ''ab''" ?s ?w1]
      local_put_skips_identical_content [of example_world "[]" "[]" ?c "Bytes []" "Bytes []" ?s ?w1]
    by blast
qed

section \<open>Writing a file and reading it from a fresh instance\<close>




end
